theory Spec2Isabelle
  imports Complex_Main
begin

section \<open>Go values, struct types and panics\<close>

text \<open>
  The package inspects its arguments through \<^verbatim>\<open>reflect\<close>. A value passed as
  \<^verbatim>\<open>interface{}\<close> is modelled by \<open>gval\<close>: \<open>VNil\<close> is the nil interface (the zero
  \<^verbatim>\<open>reflect.Value\<close>, of kind Invalid), a slice or a pointer is \<open>None\<close> when nil, and a
  struct value carries the description of its type and the values of its fields in
  declaration order. Integers of every width are \<open>VInt\<close>; a float is carried as the number it
  denotes, no arithmetic is done on it. These are the kinds of the fields in the package's
  tests; a field of interface type is covered only when it is nil, and maps, channels,
  functions and arrays are left out.
\<close>

datatype kind = KInvalid | KBool | KInt | KFloat64 | KString | KSlice | KPtr | KStruct

text \<open>
  One field of a struct type as \<^verbatim>\<open>reflect.StructField\<close> shows it: \<open>PkgPath\<close> is empty
  exactly for an exported field, and \<open>Tag\<close> is the value of \<^verbatim>\<open>field.Tag.Get("sx")\<close>
  (empty when the field has no \<^verbatim>\<open>sx\<close> tag).
\<close>

record struct_field =
  Name :: string
  PkgPath :: string
  Tag :: string

record struct_type =
  TypeName :: string
  Fields :: "struct_field list"

datatype gval =
    VNil
  | VBool bool
  | VInt int
  | VFloat64 real
  | VString string
  | VSlice "gval list option"
  | VPtr "gval option"
  | VStruct struct_type "gval list"

text \<open>A panic carries its message.\<close>

datatype error = Panic string

fun Kind :: "gval \<Rightarrow> kind" where
  "Kind VNil = KInvalid"
| "Kind (VBool b) = KBool"
| "Kind (VInt i) = KInt"
| "Kind (VFloat64 x) = KFloat64"
| "Kind (VString s) = KString"
| "Kind (VSlice xs) = KSlice"
| "Kind (VPtr p) = KPtr"
| "Kind (VStruct t vs) = KStruct"

text \<open>
  \<^verbatim>\<open>Value.Elem\<close> of a pointer: the value pointed at, the zero Value for a nil pointer.
  The package calls it on pointers only.
\<close>

fun Elem :: "gval \<Rightarrow> gval" where
  "Elem (VPtr (Some v)) = v"
| "Elem v = VNil"

text \<open>\<^verbatim>\<open>Value.Field(i)\<close> of a struct value; reflect panics when \<open>i\<close> is out of range.\<close>

fun Field_v :: "gval \<Rightarrow> nat \<Rightarrow> error + gval" where
  "Field_v (VStruct t vs) i =
     (if i < length vs then Inr (vs ! i) else Inl (Panic ''reflect: Field index out of range''))"
| "Field_v v i = Inl (Panic ''reflect: call of reflect.Value.Field on non-struct Value'')"

text \<open>A struct value is well formed when it has one value per field of its type.\<close>

definition wf_struct :: "struct_type \<Rightarrow> gval list \<Rightarrow> bool" where
  "wf_struct t vs \<longleftrightarrow> length vs = length (Fields t)"

section \<open>Strings\<close>

text \<open>
  Strings are byte strings, and the model is one of ASCII text. The character classes
  \<^verbatim>\<open>[A-Z]\<close>, \<^verbatim>\<open>[a-z]\<close> and \<^verbatim>\<open>[a-z0-9]\<close> of the two regular expressions are ASCII
  in the code too. \<^verbatim>\<open>strings.ToLower\<close> is modelled as the code computes it on an ASCII
  string, where it turns \<open>A\<close> to \<open>Z\<close> into \<open>a\<close> to \<open>z\<close> and leaves every other character;
  on other letters the code lowers by the Unicode tables, which are not modelled. What is
  stated about derived names is therefore stated for names of ASCII letters and digits.
\<close>

definition isUpper :: "char \<Rightarrow> bool" where
  "isUpper c \<longleftrightarrow> 65 \<le> (of_char c :: nat) \<and> (of_char c :: nat) \<le> 90"

definition isLower :: "char \<Rightarrow> bool" where
  "isLower c \<longleftrightarrow> 97 \<le> (of_char c :: nat) \<and> (of_char c :: nat) \<le> 122"

definition isDigit :: "char \<Rightarrow> bool" where
  "isDigit c \<longleftrightarrow> 48 \<le> (of_char c :: nat) \<and> (of_char c :: nat) \<le> 57"

definition toLower :: "char \<Rightarrow> char" where
  "toLower c = (if isUpper c then char_of ((of_char c :: nat) + 32) else c)"

definition strings_ToLower :: "string \<Rightarrow> string" where
  "strings_ToLower s = map toLower s"

text \<open>\<^verbatim>\<open>strings.Split(s, sep)\<close> for a separator of one character.\<close>

fun strings_Split :: "string \<Rightarrow> char \<Rightarrow> string list" where
  "strings_Split [] sep = [[]]"
| "strings_Split (c # cs) sep =
     (if c = sep then [] # strings_Split cs sep
      else (case strings_Split cs sep of
              [] \<Rightarrow> [[c]]
            | w # ws \<Rightarrow> (c # w) # ws))"

fun strings_Join :: "string list \<Rightarrow> string \<Rightarrow> string" where
  "strings_Join [] sep = []"
| "strings_Join [x] sep = x"
| "strings_Join (x # y # ys) sep = x @ sep @ strings_Join (y # ys) sep"

text \<open>\<^verbatim>\<open>strconv.Itoa\<close>: the decimal digits, with a minus sign for a negative number.\<close>

fun digits :: "nat \<Rightarrow> string" where
  "digits n =
     (if n < 10 then [''0123456789'' ! n]
      else digits (n div 10) @ [''0123456789'' ! (n mod 10)])"

declare digits.simps [simp del]

definition strconv_Itoa :: "int \<Rightarrow> string" where
  "strconv_Itoa i = (if i < 0 then CHR ''-'' # digits (nat (- i)) else digits (nat i))"

section \<open>Snake-casing\<close>

text \<open>
  \<^verbatim>\<open>matchWord = regexp.MustCompile(`(.)([A-Z][a-z]+)`)\<close>. A match at the head of the
  string: group 1 is one character other than a newline, group 2 an upper-case letter and the
  longest run of lower-case letters after it, which must not be empty. The result is the two
  groups and the rest of the string.
\<close>

fun matchWord :: "string \<Rightarrow> (string \<times> string \<times> string) option" where
  "matchWord (c # u # l # r) =
     (if c \<noteq> CHR 0x0A \<and> isUpper u \<and> isLower l
      then Some ([c], u # l # takeWhile isLower r, dropWhile isLower r)
      else None)"
| "matchWord s = None"

text \<open>\<^verbatim>\<open>matchAcronym = regexp.MustCompile(`([a-z0-9])([A-Z])`)\<close>, likewise.\<close>

fun matchAcronym :: "string \<Rightarrow> (string \<times> string \<times> string) option" where
  "matchAcronym (c # u # r) =
     (if (isLower c \<or> isDigit c) \<and> isUpper u then Some ([c], [u], r) else None)"
| "matchAcronym s = None"

text \<open>
  \<^verbatim>\<open>re.ReplaceAllString(in, `${1}_${2}`)\<close>: the matches are looked for from left to
  right and do not overlap; the text between them is copied, and each match is replaced by
  its first group, an underscore and its second group.
\<close>

function matchWord_ReplaceAllString :: "string \<Rightarrow> string" where
  "matchWord_ReplaceAllString [] = []"
| "matchWord_ReplaceAllString (c # cs) =
     (case matchWord (c # cs) of
        Some (g1, g2, rest) \<Rightarrow> g1 @ ''_'' @ g2 @ matchWord_ReplaceAllString rest
      | None \<Rightarrow> c # matchWord_ReplaceAllString cs)"
  by pat_completeness auto
termination
proof (relation "measure length")
  show "wf (measure length)" by simp
next
  fix c cs x2 g1 y g2 rest
  assume "matchWord (c # cs) = Some x2" "(g1, y) = x2" "(g2, rest) = y"
  then have M: "matchWord (c # cs) = Some (g1, g2, rest)" by simp
  have "length rest < length (c # cs)"
  proof (cases "c # cs" rule: matchWord.cases)
    case (1 d u l r)
    with M have "rest = dropWhile isLower r" by (auto split: if_splits)
    moreover have "length (dropWhile isLower r) \<le> length r" by (rule length_dropWhile_le)
    ultimately show ?thesis using 1 by simp
  qed (use M in auto)
  then show "(rest, c # cs) \<in> measure length" by simp
next
  fix c :: char and cs :: string
  show "(cs, c # cs) \<in> measure length" by simp
qed

function matchAcronym_ReplaceAllString :: "string \<Rightarrow> string" where
  "matchAcronym_ReplaceAllString [] = []"
| "matchAcronym_ReplaceAllString (c # cs) =
     (case matchAcronym (c # cs) of
        Some (g1, g2, rest) \<Rightarrow> g1 @ ''_'' @ g2 @ matchAcronym_ReplaceAllString rest
      | None \<Rightarrow> c # matchAcronym_ReplaceAllString cs)"
  by pat_completeness auto
termination
proof (relation "measure length")
  show "wf (measure length)" by simp
next
  fix c cs x2 g1 y g2 rest
  assume "matchAcronym (c # cs) = Some x2" "(g1, y) = x2" "(g2, rest) = y"
  then have "matchAcronym (c # cs) = Some (g1, g2, rest)" by simp
  then have "length rest < length (c # cs)"
    by (cases cs) (auto split: if_splits)
  then show "(rest, c # cs) \<in> measure length" by simp
next
  fix c :: char and cs :: string
  show "(cs, c # cs) \<in> measure length" by simp
qed

declare matchWord_ReplaceAllString.simps [simp del]
declare matchAcronym_ReplaceAllString.simps [simp del]

definition snakeCase :: "string \<Rightarrow> string" where
  "snakeCase s =
     strings_ToLower (matchAcronym_ReplaceAllString (matchWord_ReplaceAllString s))"

section \<open>The matching between struct fields and columns\<close>

record column =
  index :: nat
  name :: string
  readonly :: bool

record matching =
  reflectType :: struct_type
  columns :: "column list"
  columnMap :: "string \<rightharpoonup> column"

text \<open>
  The package's two global variables: the placeholder style and the cache of matchings,
  keyed by struct type. Every function that reads or writes them takes the globals and, where
  it may write, returns them. The mutex around the cache is not modelled: calls are taken one
  at a time.
\<close>

record globals =
  numberedPlaceholders :: bool
  matchingCache :: "struct_type \<rightharpoonup> matching"

fun columnList_loop :: "column list \<Rightarrow> string list \<Rightarrow> string list" where
  "columnList_loop [] list = list"
| "columnList_loop (c # cs) list = columnList_loop cs (list @ [name c])"

definition columnList :: "matching \<Rightarrow> string list" where
  "columnList m = columnList_loop (columns m) []"

fun columnWriteableList_loop :: "column list \<Rightarrow> string list \<Rightarrow> string list" where
  "columnWriteableList_loop [] list = list"
| "columnWriteableList_loop (c # cs) list =
     (if \<not> readonly c then columnWriteableList_loop cs (list @ [name c])
      else columnWriteableList_loop cs list)"

definition columnWriteableList :: "matching \<Rightarrow> string list" where
  "columnWriteableList m = columnWriteableList_loop (columns m) []"

definition columnOf :: "matching \<Rightarrow> string \<Rightarrow> error + column" where
  "columnOf m field =
     (case columnMap m field of
        Some c \<Rightarrow> Inr c
      | None \<Rightarrow>
          Inl (Panic (''sx: struct '' @ TypeName (reflectType m) @ '' has no usable field '' @ field)))"

text \<open>The search for a \<^verbatim>\<open>readonly\<close> tag in \<^verbatim>\<open>tags[1:]\<close>.\<close>

fun readonly_tag :: "string list \<Rightarrow> bool" where
  "readonly_tag [] = False"
| "readonly_tag (tag # tags) = (if tag = ''readonly'' then True else readonly_tag tags)"

text \<open>
  The loop of \<^verbatim>\<open>matchingOf\<close> over the fields, from field \<open>i\<close> on, with the columns and
  the column map built so far.
\<close>

fun matchingOf_loop ::
  "struct_field list \<Rightarrow> nat \<Rightarrow> column list \<Rightarrow> (string \<rightharpoonup> column)
     \<Rightarrow> column list \<times> (string \<rightharpoonup> column)" where
  "matchingOf_loop [] i cols colmap = (cols, colmap)"
| "matchingOf_loop (field # rest) i cols colmap =
     (let tags = strings_Split (Tag field) CHR '','';
          colname = hd tags
      in if colname = ''-'' \<or> PkgPath field \<noteq> '''' then matchingOf_loop rest (i + 1) cols colmap
         else
           (let colname = (if colname = '''' then snakeCase (Name field) else colname);
                col = \<lparr>index = i, name = colname, readonly = readonly_tag (tl tags)\<rparr>
            in matchingOf_loop rest (i + 1) (cols @ [col]) (colmap(Name field \<mapsto> col))))"

text \<open>The part of \<^verbatim>\<open>matchingOf\<close> that generates a new matching for a struct type.\<close>

definition matchingOf_generate :: "struct_type \<Rightarrow> error + matching" where
  "matchingOf_generate rt =
     (case matchingOf_loop (Fields rt) 0 [] Map.empty of
        (cols, colmap) \<Rightarrow>
          if length cols = 0
          then Inl (Panic (''sx: struct '' @ TypeName rt @ '' has no usable fields''))
          else Inr \<lparr>reflectType = rt, columns = cols, columnMap = colmap\<rparr>)"

definition matchingOf :: "globals \<Rightarrow> gval \<Rightarrow> (error + matching) \<times> globals" where
  "matchingOf g dt =
     (if Kind dt \<noteq> KPtr \<or> Kind (Elem dt) \<noteq> KStruct
      then (Inl (Panic ''sx: expected a pointer to a struct''), g)
      else
        (case Elem dt of
           VStruct rt vs \<Rightarrow>
             (case matchingCache g rt of
                Some m \<Rightarrow> (Inr m, g)
              | None \<Rightarrow>
                  (case matchingOf_generate rt of
                     Inl e \<Rightarrow> (Inl e, g)
                   | Inr m \<Rightarrow> (Inr m, g\<lparr>matchingCache := (matchingCache g)(rt \<mapsto> m)\<rparr>)))
         | _ \<Rightarrow> (Inl (Panic ''sx: expected a pointer to a struct''), g)))"

section \<open>Placeholders\<close>

text \<open>
  A \<^verbatim>\<open>Placeholder\<close> is an \<^verbatim>\<open>int\<close>, of 64 bits. The counter is a mathematical
  integer here, and \<^verbatim>\<open>*p++\<close> adds one to it: this is what the code does for every counter
  from \<open>- 2 ^ 63\<close> to \<open>2 ^ 63 - 2\<close>; at \<open>2 ^ 63 - 1\<close> the code wraps around and the model
  does not. The builders start at 0 or 1 and count no further than the number of columns or
  field names they are given, and what is stated of \<^verbatim>\<open>Next\<close> itself is stated for a
  counter below \<open>2 ^ 63 - 1\<close>.
\<close>

type_synonym Placeholder = int

definition Placeholder_String :: "globals \<Rightarrow> Placeholder \<Rightarrow> string" where
  "Placeholder_String g p =
     (if numberedPlaceholders g then ''$'' @ strconv_Itoa p else ''?'')"

text \<open>\<^verbatim>\<open>Next\<close> has a pointer receiver: it returns the string and the new counter.\<close>

definition Placeholder_Next :: "globals \<Rightarrow> Placeholder \<Rightarrow> string \<times> Placeholder" where
  "Placeholder_Next g p = (Placeholder_String g (p + 1), p + 1)"

section \<open>Query builders\<close>

text \<open>
  Every builder starts with \<^verbatim>\<open>matchingOf\<close>; a panic there ends the call. The string
  builder \<^verbatim>\<open>bob\<close> is the string written so far.
\<close>

fun SelectQuery_loop :: "column list \<Rightarrow> string \<Rightarrow> char \<Rightarrow> string" where
  "SelectQuery_loop [] bob sep = bob"
| "SelectQuery_loop (c # cs) bob sep = SelectQuery_loop cs (bob @ [sep] @ name c) CHR '',''"

definition SelectQuery :: "globals \<Rightarrow> string \<Rightarrow> gval \<Rightarrow> (error + string) \<times> globals" where
  "SelectQuery g table dt =
     (case matchingOf g dt of
        (Inl e, g') \<Rightarrow> (Inl e, g')
      | (Inr m, g') \<Rightarrow>
          (Inr (SelectQuery_loop (columns m) ''SELECT'' CHR '' '' @ '' FROM '' @ table), g'))"

fun SelectAliasQuery_loop :: "string \<Rightarrow> column list \<Rightarrow> string \<Rightarrow> char \<Rightarrow> string" where
  "SelectAliasQuery_loop alias [] bob sep = bob"
| "SelectAliasQuery_loop alias (c # cs) bob sep =
     SelectAliasQuery_loop alias cs (bob @ [sep] @ alias @ ''.'' @ name c) CHR '',''"

definition SelectAliasQuery ::
  "globals \<Rightarrow> string \<Rightarrow> string \<Rightarrow> gval \<Rightarrow> (error + string) \<times> globals" where
  "SelectAliasQuery g table alias dt =
     (case matchingOf g dt of
        (Inl e, g') \<Rightarrow> (Inl e, g')
      | (Inr m, g') \<Rightarrow>
          (Inr (SelectAliasQuery_loop alias (columns m) ''SELECT'' CHR '' ''
                  @ '' FROM '' @ table @ '' '' @ alias), g'))"

text \<open>The first loop of \<^verbatim>\<open>InsertQuery\<close>: the writeable column names, counted in \<open>n\<close>.\<close>

fun InsertQuery_columns :: "column list \<Rightarrow> string \<Rightarrow> char \<Rightarrow> int \<Rightarrow> string \<times> int" where
  "InsertQuery_columns [] bob sep n = (bob, n)"
| "InsertQuery_columns (c # cs) bob sep n =
     (if \<not> readonly c then InsertQuery_columns cs (bob @ [sep] @ name c) CHR '','' (n + 1)
      else InsertQuery_columns cs bob sep n)"

text \<open>The second loop: \<^verbatim>\<open>for p := Placeholder(0); p < Placeholder(n); { ... p.Next() ... }\<close>.\<close>

function InsertQuery_placeholders ::
  "globals \<Rightarrow> Placeholder \<Rightarrow> int \<Rightarrow> string \<Rightarrow> char \<Rightarrow> string" where
  "InsertQuery_placeholders g p n bob sep =
     (if p < n
      then InsertQuery_placeholders g (snd (Placeholder_Next g p)) n
             (bob @ [sep] @ fst (Placeholder_Next g p)) CHR '',''
      else bob)"
  by pat_completeness auto
termination
  by (relation "measure (\<lambda>(g, p, n, bob, sep). nat (n - p))")
     (auto simp: Placeholder_Next_def)

declare InsertQuery_placeholders.simps [simp del]

definition InsertQuery :: "globals \<Rightarrow> string \<Rightarrow> gval \<Rightarrow> (error + string) \<times> globals" where
  "InsertQuery g table dt =
     (case matchingOf g dt of
        (Inl e, g1) \<Rightarrow> (Inl e, g1)
      | (Inr m, g1) \<Rightarrow>
          (case InsertQuery_columns (columns m) (''INSERT INTO '' @ table @ '' '') CHR ''('' 0 of
             (bob, n) \<Rightarrow>
               if n = 0
               then (case matchingOf g1 dt of
                       (Inl e, g2) \<Rightarrow> (Inl e, g2)
                     | (Inr m2, g2) \<Rightarrow>
                         (Inl (Panic (''sx: struct '' @ TypeName (reflectType m2)
                                        @ '' has no writeable fields'')), g2))
               else (Inr (InsertQuery_placeholders g1 0 n (bob @ '') VALUES '') CHR ''(''
                            @ '')''), g1)))"

text \<open>Modelled from the spec: \<^verbatim>\<open>valueIsZero\<close>, the test that \<^verbatim>\<open>UpdateQuery\<close>
  applies to a field value and whose source is not among the files. The spec's zero-value
  policy: a field is unset when it holds the zero value for its kind, that is the empty
  string, a zero number, false, a nil reference or pointer; the zero value of a struct is the
  one whose fields are all zero.
\<close>

fun valueIsZero :: "gval \<Rightarrow> bool" where
  "valueIsZero VNil = True"
| "valueIsZero (VBool b) = (\<not> b)"
| "valueIsZero (VInt i) = (i = 0)"
| "valueIsZero (VFloat64 x) = (x = 0)"
| "valueIsZero (VString s) = (s = [])"
| "valueIsZero (VSlice xs) = (xs = None)"
| "valueIsZero (VPtr p) = (p = None)"
| "valueIsZero (VStruct t vs) = list_all valueIsZero vs"

text \<open>
  The loop of \<^verbatim>\<open>UpdateQuery\<close> over the columns, with the assignments, the values and
  the placeholder so far.
\<close>

fun UpdateQuery_loop ::
  "globals \<Rightarrow> gval \<Rightarrow> column list \<Rightarrow> string list \<Rightarrow> gval list \<Rightarrow> Placeholder
     \<Rightarrow> error + (string list \<times> gval list)" where
  "UpdateQuery_loop g inst [] cols vals p = Inr (cols, vals)"
| "UpdateQuery_loop g inst (c # cs) cols vals p =
     (if \<not> readonly c
      then (case Field_v inst (index c) of
              Inl e \<Rightarrow> Inl e
            | Inr val \<Rightarrow>
                if \<not> valueIsZero val
                then UpdateQuery_loop g inst cs
                       (cols @ [name c @ ''='' @ fst (Placeholder_Next g p)])
                       (vals @ [if Kind val = KPtr then Elem val else val])
                       (snd (Placeholder_Next g p))
                else UpdateQuery_loop g inst cs cols vals p)
      else UpdateQuery_loop g inst cs cols vals p)"

text \<open>The value list that \<^verbatim>\<open>UpdateQuery\<close> returns is \<open>None\<close> when it is nil.\<close>

definition UpdateQuery ::
  "globals \<Rightarrow> string \<Rightarrow> gval \<Rightarrow> (error + string \<times> gval list option) \<times> globals" where
  "UpdateQuery g table data =
     (case matchingOf g data of
        (Inl e, g') \<Rightarrow> (Inl e, g')
      | (Inr m, g') \<Rightarrow>
          (case UpdateQuery_loop g' (Elem data) (columns m) [] [] 1 of
             Inl e \<Rightarrow> (Inl e, g')
           | Inr (cols, vals) \<Rightarrow>
               if length cols = 0 then (Inr ('''', None), g')
               else (Inr (''UPDATE '' @ table @ '' SET '' @ strings_Join cols '','', Some vals),
                     g')))"

fun UpdateAllQuery_loop ::
  "globals \<Rightarrow> column list \<Rightarrow> string list \<Rightarrow> Placeholder \<Rightarrow> string list" where
  "UpdateAllQuery_loop g [] cols p = cols"
| "UpdateAllQuery_loop g (c # cs) cols p =
     (if \<not> readonly c
      then UpdateAllQuery_loop g cs (cols @ [name c @ ''='' @ fst (Placeholder_Next g p)])
             (snd (Placeholder_Next g p))
      else UpdateAllQuery_loop g cs cols p)"

definition UpdateAllQuery :: "globals \<Rightarrow> string \<Rightarrow> gval \<Rightarrow> (error + string) \<times> globals" where
  "UpdateAllQuery g table data =
     (case matchingOf g data of
        (Inl e, g') \<Rightarrow> (Inl e, g')
      | (Inr m, g') \<Rightarrow>
          (Inr (''UPDATE '' @ table @ '' SET ''
                  @ strings_Join (UpdateAllQuery_loop g' (columns m) [] 1) '',''), g'))"

fun UpdateFieldsQuery_loop ::
  "globals \<Rightarrow> matching \<Rightarrow> gval \<Rightarrow> string list \<Rightarrow> string list \<Rightarrow> gval list \<Rightarrow> Placeholder
     \<Rightarrow> error + (string list \<times> gval list)" where
  "UpdateFieldsQuery_loop g m inst [] cols vals p = Inr (cols, vals)"
| "UpdateFieldsQuery_loop g m inst (field # flds) cols vals p =
     (case columnMap m field of
        Some c \<Rightarrow>
          (case Field_v inst (index c) of
             Inl e \<Rightarrow> Inl e
           | Inr val \<Rightarrow>
               UpdateFieldsQuery_loop g m inst flds
                 (cols @ [name c @ ''='' @ fst (Placeholder_Next g p)])
                 (vals @ [val])
                 (snd (Placeholder_Next g p)))
      | None \<Rightarrow>
          Inl (Panic (''struct '' @ TypeName (reflectType m) @ '' has no usable field '' @ field)))"

definition UpdateFieldsQuery ::
  "globals \<Rightarrow> string \<Rightarrow> gval \<Rightarrow> string list
     \<Rightarrow> (error + string \<times> gval list) \<times> globals" where
  "UpdateFieldsQuery g table data flds =
     (case matchingOf g data of
        (Inl e, g') \<Rightarrow> (Inl e, g')
      | (Inr m, g') \<Rightarrow>
          if length flds = 0
          then (Inl (Panic ''UpdateFieldsQuery requires at least one field''), g')
          else
            (case UpdateFieldsQuery_loop g' m (Elem data) flds [] [] 1 of
               Inl e \<Rightarrow> (Inl e, g')
             | Inr (cols, vals) \<Rightarrow>
                 (Inr (''UPDATE '' @ table @ '' SET '' @ strings_Join cols '','', vals), g')))"

section \<open>Accessors\<close>

text \<open>
  \<^verbatim>\<open>Addrs\<close> returns pointers into the struct that \<^verbatim>\<open>dest\<close> points at:
  \<open>FieldAddr i\<close> is the address of its field \<open>i\<close>.
\<close>

datatype addr = FieldAddr nat

fun Addrs_loop :: "gval \<Rightarrow> column list \<Rightarrow> addr list \<Rightarrow> error + addr list" where
  "Addrs_loop val [] addrs = Inr addrs"
| "Addrs_loop val (c # cs) addrs =
     (case Field_v val (index c) of
        Inl e \<Rightarrow> Inl e
      | Inr f \<Rightarrow> Addrs_loop val cs (addrs @ [FieldAddr (index c)]))"

definition Addrs :: "globals \<Rightarrow> gval \<Rightarrow> (error + addr list) \<times> globals" where
  "Addrs g dest =
     (case matchingOf g dest of
        (Inl e, g') \<Rightarrow> (Inl e, g')
      | (Inr m, g') \<Rightarrow> (Addrs_loop (Elem dest) (columns m) [], g'))"

fun Values_loop :: "gval \<Rightarrow> column list \<Rightarrow> gval list \<Rightarrow> error + gval list" where
  "Values_loop val [] vals = Inr vals"
| "Values_loop val (c # cs) vals =
     (if \<not> readonly c
      then (case Field_v val (index c) of
              Inl e \<Rightarrow> Inl e
            | Inr f \<Rightarrow> Values_loop val cs (vals @ [f]))
      else Values_loop val cs vals)"

definition Values :: "globals \<Rightarrow> gval \<Rightarrow> (error + gval list) \<times> globals" where
  "Values g data =
     (case matchingOf g data of
        (Inl e, g') \<Rightarrow> (Inl e, g')
      | (Inr m, g') \<Rightarrow> (Values_loop (Elem data) (columns m) [], g'))"

definition ValueOf :: "globals \<Rightarrow> gval \<Rightarrow> string \<Rightarrow> (error + gval) \<times> globals" where
  "ValueOf g data field =
     (case matchingOf g data of
        (Inl e, g') \<Rightarrow> (Inl e, g')
      | (Inr m, g') \<Rightarrow>
          (case columnOf m field of
             Inl e \<Rightarrow> (Inl e, g')
           | Inr c \<Rightarrow> (Field_v (Elem data) (index c), g')))"

definition Columns :: "globals \<Rightarrow> gval \<Rightarrow> (error + string list) \<times> globals" where
  "Columns g dt =
     (case matchingOf g dt of
        (Inl e, g') \<Rightarrow> (Inl e, g')
      | (Inr m, g') \<Rightarrow> (Inr (columnList m), g'))"

definition ColumnsWriteable :: "globals \<Rightarrow> gval \<Rightarrow> (error + string list) \<times> globals" where
  "ColumnsWriteable g dt =
     (case matchingOf g dt of
        (Inl e, g') \<Rightarrow> (Inl e, g')
      | (Inr m, g') \<Rightarrow> (Inr (columnWriteableList m), g'))"

text \<open>
  \<^verbatim>\<open>ColumnOf\<close> returns a name and an error value: the error is \<open>Some\<close> message for an
  unknown field, and it is returned, not raised.
\<close>

definition ColumnOf ::
  "globals \<Rightarrow> gval \<Rightarrow> string \<Rightarrow> (error + string \<times> string option) \<times> globals" where
  "ColumnOf g dt field =
     (case matchingOf g dt of
        (Inl e, g') \<Rightarrow> (Inl e, g')
      | (Inr m, g') \<Rightarrow>
          (case columnMap m field of
             Some c \<Rightarrow> (Inr (name c, None), g')
           | None \<Rightarrow>
               (Inr ('''', Some (''struct '' @ TypeName (reflectType m)
                                  @ '' has no usable field '' @ field)), g')))"

section \<open>Notions used to state the properties\<close>

text \<open>
  The cache is consistent when every matching in it is the one \<^verbatim>\<open>matchingOf\<close> generates
  for its type. The empty cache is consistent and \<^verbatim>\<open>matchingOf\<close> keeps it so.
\<close>

definition cache_ok :: "globals \<Rightarrow> bool" where
  "cache_ok g \<longleftrightarrow> (\<forall>rt m. matchingCache g rt = Some m \<longrightarrow> matchingOf_generate rt = Inr m)"

text \<open>The first segment of a field's annotation, and whether a later one says read-only.\<close>

definition tag_name :: "struct_field \<Rightarrow> string" where
  "tag_name f = hd (strings_Split (Tag f) CHR '','')"

definition tag_readonly :: "struct_field \<Rightarrow> bool" where
  "tag_readonly f \<longleftrightarrow> ''readonly'' \<in> set (tl (strings_Split (Tag f) CHR '',''))"

text \<open>A field is usable when it is exported and not annotated \<^verbatim>\<open>-\<close>.\<close>

definition usable_field :: "struct_field \<Rightarrow> bool" where
  "usable_field f \<longleftrightarrow> PkgPath f = '''' \<and> tag_name f \<noteq> ''-''"

text \<open>The column of the usable field \<open>f\<close> at position \<open>i\<close>.\<close>

definition field_column :: "nat \<Rightarrow> struct_field \<Rightarrow> column" where
  "field_column i f =
     \<lparr>index = i,
      name = (if tag_name f = '''' then snakeCase (Name f) else tag_name f),
      readonly = tag_readonly f\<rparr>"

definition field_columns :: "struct_type \<Rightarrow> column list" where
  "field_columns rt =
     map (\<lambda>(i, f). field_column i f) (filter (\<lambda>(i, f). usable_field f) (enumerate 0 (Fields rt)))"

definition writeable :: "column list \<Rightarrow> column list" where
  "writeable cs = filter (\<lambda>c. \<not> readonly c) cs"

text \<open>
  The assignments \<^verbatim>\<open>column=placeholder\<close> for the columns \<open>cs\<close>, the placeholders
  counted from \<open>p + 1\<close>.
\<close>

fun assignments :: "globals \<Rightarrow> column list \<Rightarrow> Placeholder \<Rightarrow> string list" where
  "assignments g [] p = []"
| "assignments g (c # cs) p =
     (name c @ ''='' @ Placeholder_String g (p + 1)) # assignments g cs (p + 1)"

text \<open>
  The columns that \<^verbatim>\<open>UpdateQuery\<close> writes for the field values \<open>vs\<close>: writeable, with a
  value that is not zero. The value bound for a field: what a pointer points at, the value
  itself otherwise.
\<close>

definition changed :: "column list \<Rightarrow> gval list \<Rightarrow> column list" where
  "changed cs vs = filter (\<lambda>c. \<not> readonly c \<and> \<not> valueIsZero (vs ! index c)) cs"

definition bound_value :: "gval \<Rightarrow> gval" where
  "bound_value v = (case v of VPtr (Some w) \<Rightarrow> w | _ \<Rightarrow> v)"

section \<open>Struct types of the package's tests\<close>

text \<open>
  \<^verbatim>\<open>type menagerie0 struct { Platypus string; Rhinoceros float64 }\<close>
\<close>

definition menagerie0 :: struct_type where
  "menagerie0 =
     \<lparr>TypeName = ''menagerie0'',
      Fields = [\<lparr>Name = ''Platypus'', PkgPath = '''', Tag = ''''\<rparr>,
                \<lparr>Name = ''Rhinoceros'', PkgPath = '''', Tag = ''''\<rparr>]\<rparr>"

text \<open>
  \<^verbatim>\<open>type menagerie1 struct { Chimpanzee int64 `sx:"human"`; Flamingo string `sx:",readonly"`; Warthog string `sx:"-"` }\<close>
\<close>

definition menagerie1 :: struct_type where
  "menagerie1 =
     \<lparr>TypeName = ''menagerie1'',
      Fields = [\<lparr>Name = ''Chimpanzee'', PkgPath = '''', Tag = ''human''\<rparr>,
                \<lparr>Name = ''Flamingo'', PkgPath = '''', Tag = '',readonly''\<rparr>,
                \<lparr>Name = ''Warthog'', PkgPath = '''', Tag = ''-''\<rparr>]\<rparr>"

text \<open>
  \<^verbatim>\<open>type menagerie2 struct { Cougar string; Cheetah *string `sx:"cat"`; Grizzly int32; Wilderbeast []int32; Ant bool `sx:"-"`; Bee bool `sx:",readonly"` }\<close>
\<close>

definition menagerie2 :: struct_type where
  "menagerie2 =
     \<lparr>TypeName = ''menagerie2'',
      Fields = [\<lparr>Name = ''Cougar'', PkgPath = '''', Tag = ''''\<rparr>,
                \<lparr>Name = ''Cheetah'', PkgPath = '''', Tag = ''cat''\<rparr>,
                \<lparr>Name = ''Grizzly'', PkgPath = '''', Tag = ''''\<rparr>,
                \<lparr>Name = ''Wilderbeast'', PkgPath = '''', Tag = ''''\<rparr>,
                \<lparr>Name = ''Ant'', PkgPath = '''', Tag = ''-''\<rparr>,
                \<lparr>Name = ''Bee'', PkgPath = '''', Tag = '',readonly''\<rparr>]\<rparr>"

text \<open>The globals when the package starts: no matching is cached.\<close>

definition initial_globals :: "bool \<Rightarrow> globals" where
  "initial_globals numbered = \<lparr>numberedPlaceholders = numbered, matchingCache = Map.empty\<rparr>"

text \<open>
  Every operation that resolves a matching panics with \<open>e\<close> on the argument \<open>dt\<close>,
  whatever its other arguments, and leaves the globals, the cache among them, as they were.
\<close>

definition aborts_with :: "globals \<Rightarrow> gval \<Rightarrow> error \<Rightarrow> bool" where
  "aborts_with g dt e \<longleftrightarrow>
     matchingOf g dt = (Inl e, g) \<and>
     (\<forall>table. SelectQuery g table dt = (Inl e, g)) \<and>
     (\<forall>table alias. SelectAliasQuery g table alias dt = (Inl e, g)) \<and>
     (\<forall>table. InsertQuery g table dt = (Inl e, g)) \<and>
     (\<forall>table. UpdateQuery g table dt = (Inl e, g)) \<and>
     (\<forall>table. UpdateAllQuery g table dt = (Inl e, g)) \<and>
     (\<forall>table flds. UpdateFieldsQuery g table dt flds = (Inl e, g)) \<and>
     Addrs g dt = (Inl e, g) \<and>
     Values g dt = (Inl e, g) \<and>
     (\<forall>field. ValueOf g dt field = (Inl e, g)) \<and>
     Columns g dt = (Inl e, g) \<and>
     ColumnsWriteable g dt = (Inl e, g) \<and>
     (\<forall>field. ColumnOf g dt field = (Inl e, g))"

text \<open>
  \<^verbatim>\<open>type test2 struct { A int `sx:"-"` }\<close> and \<^verbatim>\<open>type test3 struct { a int }\<close>, whose
  field is not exported: its \<open>PkgPath\<close> is the path of the test package.
\<close>

definition test2 :: struct_type where
  "test2 = \<lparr>TypeName = ''test2'', Fields = [\<lparr>Name = ''A'', PkgPath = '''', Tag = ''-''\<rparr>]\<rparr>"

definition test3 :: struct_type where
  "test3 =
     \<lparr>TypeName = ''test3'',
      Fields = [\<lparr>Name = ''a'', PkgPath = ''github.com/travelaudience/go-sx_test'', Tag = ''''\<rparr>]\<rparr>"



section \<open>Facts about the model\<close>

subsection \<open>Strings\<close>

lemma strings_Split_not_Nil: "strings_Split s sep \<noteq> []"
  by (induction s) (auto split: list.splits)

lemma readonly_tag_iff: "readonly_tag tags \<longleftrightarrow> ''readonly'' \<in> set tags"
  by (induction tags) auto

lemma strings_Join_Cons: "strings_Join (x # xs) sep = x @ concat (map (\<lambda>y. sep @ y) xs)"
  by (induction xs arbitrary: x) auto

subsection \<open>The matching\<close>

lemma fst_matchingOf_loop:
  "fst (matchingOf_loop fs i cols colmap) =
     cols @ map (\<lambda>(i, f). field_column i f) (filter (\<lambda>(i, f). usable_field f) (enumerate i fs))"
  by (induction fs arbitrary: i cols colmap)
     (auto simp: Let_def usable_field_def field_column_def tag_name_def tag_readonly_def
        readonly_tag_iff)

lemma dom_snd_matchingOf_loop:
  "dom (snd (matchingOf_loop fs i cols colmap)) = dom colmap \<union> Name ` {f \<in> set fs. usable_field f}"
  by (induction fs arbitrary: i cols colmap)
     (auto simp: Let_def usable_field_def tag_name_def)

lemma matchingOf_generate_eq:
  "matchingOf_generate rt =
     (if field_columns rt = []
      then Inl (Panic (''sx: struct '' @ TypeName rt @ '' has no usable fields''))
      else Inr \<lparr>reflectType = rt, columns = field_columns rt,
                columnMap = snd (matchingOf_loop (Fields rt) 0 [] Map.empty)\<rparr>)"
  using fst_matchingOf_loop [of "Fields rt" 0 "[]" Map.empty]
  by (auto simp: matchingOf_generate_def field_columns_def split: prod.splits)

lemma matchingOf_generate_Inr:
  assumes "matchingOf_generate rt = Inr m"
  shows "columns m = field_columns rt" and "reflectType m = rt" and "field_columns rt \<noteq> []"
  using assms by (auto simp: matchingOf_generate_eq split: if_splits)

lemma matchingOf_generate_dom:
  assumes "matchingOf_generate rt = Inr m"
  shows "dom (columnMap m) = Name ` {f \<in> set (Fields rt). usable_field f}"
proof -
  have "columnMap m = snd (matchingOf_loop (Fields rt) 0 [] Map.empty)"
    using assms by (auto simp: matchingOf_generate_eq split: if_splits)
  then show ?thesis by (simp add: dom_snd_matchingOf_loop)
qed

lemma matchingOf_shape:
  "Kind dt \<noteq> KPtr \<or> Kind (Elem dt) \<noteq> KStruct \<longleftrightarrow> (\<nexists>rt vs. dt = VPtr (Some (VStruct rt vs)))"
  by (cases dt rule: Elem.cases) (auto elim: Kind.elims)

lemma matchingOf_bad_shape:
  "\<nexists>rt vs. dt = VPtr (Some (VStruct rt vs)) \<Longrightarrow>
     matchingOf g dt = (Inl (Panic ''sx: expected a pointer to a struct''), g)"
  using matchingOf_shape [of dt] by (simp add: matchingOf_def)

lemma fst_matchingOf:
  "cache_ok g \<Longrightarrow> fst (matchingOf g (VPtr (Some (VStruct rt vs)))) = matchingOf_generate rt"
  by (auto simp: matchingOf_def cache_ok_def split: option.splits sum.splits)

lemma snd_matchingOf_Inl:
  "fst (matchingOf g dt) = Inl e \<Longrightarrow> snd (matchingOf g dt) = g"
  by (auto simp: matchingOf_def split: option.splits sum.splits gval.splits if_splits)

lemma cache_ok_matchingOf: "cache_ok g \<Longrightarrow> cache_ok (snd (matchingOf g dt))"
  by (auto simp: matchingOf_def cache_ok_def split: option.splits sum.splits gval.splits if_splits)

lemma numbered_matchingOf:
  "numberedPlaceholders (snd (matchingOf g dt)) = numberedPlaceholders g"
  by (auto simp: matchingOf_def split: option.splits sum.splits gval.splits if_splits)

subsection \<open>Loops\<close>

lemma columnList_loop_eq: "columnList_loop cs l = l @ map name cs"
  by (induction cs arbitrary: l) auto

lemma columnWriteableList_loop_eq: "columnWriteableList_loop cs l = l @ map name (writeable cs)"
  by (induction cs arbitrary: l) (auto simp: writeable_def)

lemma SelectQuery_loop_comma:
  "SelectQuery_loop cs bob CHR '','' = bob @ concat (map (\<lambda>c. '','' @ name c) cs)"
  by (induction cs arbitrary: bob) auto

lemma SelectQuery_loop_eq:
  "cs \<noteq> [] \<Longrightarrow> SelectQuery_loop cs bob sep = bob @ [sep] @ strings_Join (map name cs) '',''"
  by (cases cs) (auto simp: SelectQuery_loop_comma strings_Join_Cons comp_def)

lemma SelectAliasQuery_loop_comma:
  "SelectAliasQuery_loop a cs bob CHR '','' = bob @ concat (map (\<lambda>c. '','' @ a @ ''.'' @ name c) cs)"
  by (induction cs arbitrary: bob) auto

lemma SelectAliasQuery_loop_eq:
  "cs \<noteq> [] \<Longrightarrow> SelectAliasQuery_loop a cs bob sep =
     bob @ [sep] @ strings_Join (map (\<lambda>c. a @ ''.'' @ name c) cs) '',''"
  by (cases cs) (auto simp: SelectAliasQuery_loop_comma strings_Join_Cons comp_def)

lemma InsertQuery_columns_comma:
  "InsertQuery_columns cs bob CHR '','' n =
     (bob @ concat (map (\<lambda>c. '','' @ name c) (writeable cs)), n + int (length (writeable cs)))"
  by (induction cs arbitrary: bob n) (auto simp: writeable_def)

lemma InsertQuery_columns_eq:
  "InsertQuery_columns cs bob sep n =
     (if writeable cs = [] then bob else bob @ [sep] @ strings_Join (map name (writeable cs)) '','',
      n + int (length (writeable cs)))"
  by (induction cs arbitrary: bob n)
     (auto simp: writeable_def InsertQuery_columns_comma strings_Join_Cons comp_def)

lemma InsertQuery_placeholders_comma:
  "InsertQuery_placeholders g p n bob CHR '','' =
     bob @ concat (map (\<lambda>k. '','' @ Placeholder_String g k) [p + 1..n])"
proof (induction g p n bob "CHR '',''" rule: InsertQuery_placeholders.induct)
  case (1 g p n bob)
  show ?case
  proof (cases "p < n")
    case True
    then have "[p + 1..n] = (p + 1) # [p + 1 + 1..n]" by (simp add: upto_rec1)
    with True 1 show ?thesis
      by (subst InsertQuery_placeholders.simps) (simp add: Placeholder_Next_def)
  next
    case False
    then show ?thesis by (subst InsertQuery_placeholders.simps) simp
  qed
qed

lemma InsertQuery_placeholders_eq:
  "p < n \<Longrightarrow> InsertQuery_placeholders g p n bob sep =
     bob @ [sep] @ strings_Join (map (Placeholder_String g) [p + 1..n]) '',''"
proof -
  assume "p < n"
  then have "[p + 1..n] = (p + 1) # [p + 1 + 1..n]" by (simp add: upto_rec1)
  with \<open>p < n\<close> show ?thesis
    by (subst InsertQuery_placeholders.simps)
       (simp add: Placeholder_Next_def InsertQuery_placeholders_comma strings_Join_Cons comp_def)
qed

lemma Placeholder_String_cong:
  "numberedPlaceholders g' = numberedPlaceholders g \<Longrightarrow> Placeholder_String g' = Placeholder_String g"
  by (rule ext) (simp add: Placeholder_String_def)

lemma assignments_cong:
  "numberedPlaceholders g' = numberedPlaceholders g \<Longrightarrow> assignments g' cs p = assignments g cs p"
  by (induction cs arbitrary: p) (simp_all add: Placeholder_String_def)

lemma length_assignments: "length (assignments g cs p) = length cs"
  by (induction cs arbitrary: p) auto

lemma assignments_Nil: "assignments g cs p = [] \<longleftrightarrow> cs = []"
  by (cases cs) auto

lemma nth_assignments:
  "k < length cs \<Longrightarrow>
     assignments g cs p ! k = name (cs ! k) @ ''='' @ Placeholder_String g (p + 1 + int k)"
proof (induction cs arbitrary: p k)
  case Nil
  then show ?case by simp
next
  case (Cons c cs)
  then show ?case by (cases k) (auto simp: algebra_simps)
qed

lemma UpdateAllQuery_loop_eq:
  "UpdateAllQuery_loop g cs cols p = cols @ assignments g (writeable cs) p"
  by (induction cs arbitrary: cols p) (auto simp: writeable_def Placeholder_Next_def)

lemma UpdateQuery_loop_eq:
  "\<forall>c\<in>set cs. index c < length vs \<Longrightarrow>
     UpdateQuery_loop g (VStruct rt vs) cs cols vals p =
       Inr (cols @ assignments g (changed cs vs) p,
            vals @ map (\<lambda>c. bound_value (vs ! index c)) (changed cs vs))"
proof (induction cs arbitrary: cols vals p)
  case Nil
  then show ?case by (simp add: changed_def)
next
  case (Cons c cs)
  have b: "(if Kind v = KPtr then Elem v else v) = bound_value v" if "\<not> valueIsZero v" for v
    using that by (cases v) (auto simp: bound_value_def)
  from Cons show ?case
    by (auto simp: changed_def Placeholder_Next_def b)
qed

lemma Addrs_loop_eq:
  "\<forall>c\<in>set cs. index c < length vs \<Longrightarrow>
     Addrs_loop (VStruct rt vs) cs addrs = Inr (addrs @ map (\<lambda>c. FieldAddr (index c)) cs)"
  by (induction cs arbitrary: addrs) auto

lemma Values_loop_eq:
  "\<forall>c\<in>set cs. index c < length vs \<Longrightarrow>
     Values_loop (VStruct rt vs) cs vals = Inr (vals @ map (\<lambda>c. vs ! index c) (writeable cs))"
  by (induction cs arbitrary: vals) (auto simp: writeable_def)

subsection \<open>Builders on a valid argument\<close>

lemma matchingOf_valid:
  assumes "cache_ok g" and "field_columns rt \<noteq> []"
  obtains m g' where "matchingOf g (VPtr (Some (VStruct rt vs))) = (Inr m, g')"
    and "matchingOf_generate rt = Inr m"
    and "columns m = field_columns rt" and "reflectType m = rt"
    and "cache_ok g'" and "numberedPlaceholders g' = numberedPlaceholders g"
proof -
  let ?dt = "VPtr (Some (VStruct rt vs))"
  obtain m where m: "matchingOf_generate rt = Inr m"
    using assms(2) by (auto simp: matchingOf_generate_eq)
  then have "fst (matchingOf g ?dt) = Inr m"
    using assms(1) by (simp add: fst_matchingOf)
  then have "matchingOf g ?dt = (Inr m, snd (matchingOf g ?dt))"
    by (metis prod.collapse)
  then show thesis
    using that [of m "snd (matchingOf g ?dt)"] m matchingOf_generate_Inr [OF m] assms(1)
      cache_ok_matchingOf [of g ?dt] numbered_matchingOf [of g ?dt]
    by simp
qed

lemma matchingOf_no_usable:
  assumes "cache_ok g" and "field_columns rt = []"
  shows "matchingOf g (VPtr (Some (VStruct rt vs))) =
           (Inl (Panic (''sx: struct '' @ TypeName rt @ '' has no usable fields'')), g)"
proof -
  let ?dt = "VPtr (Some (VStruct rt vs))"
  have "fst (matchingOf g ?dt) = Inl (Panic (''sx: struct '' @ TypeName rt @ '' has no usable fields''))"
    using assms by (simp add: fst_matchingOf matchingOf_generate_eq)
  then show ?thesis
    using snd_matchingOf_Inl [of g ?dt] by (metis prod.collapse)
qed

lemma Columns_valid:
  assumes "cache_ok g" and "field_columns rt \<noteq> []"
  shows "fst (Columns g (VPtr (Some (VStruct rt vs)))) = Inr (map name (field_columns rt))"
proof -
  obtain m g' where "matchingOf g (VPtr (Some (VStruct rt vs))) = (Inr m, g')"
    and "columns m = field_columns rt"
    using assms by (rule matchingOf_valid)
  then show ?thesis by (simp add: Columns_def columnList_def columnList_loop_eq)
qed

lemma ColumnsWriteable_valid:
  assumes "cache_ok g" and "field_columns rt \<noteq> []"
  shows "fst (ColumnsWriteable g (VPtr (Some (VStruct rt vs)))) =
           Inr (map name (writeable (field_columns rt)))"
proof -
  obtain m g' where "matchingOf g (VPtr (Some (VStruct rt vs))) = (Inr m, g')"
    and "columns m = field_columns rt"
    using assms by (rule matchingOf_valid)
  then show ?thesis
    by (simp add: ColumnsWriteable_def columnWriteableList_def columnWriteableList_loop_eq)
qed

lemma SelectQuery_valid:
  assumes "cache_ok g" and "field_columns rt \<noteq> []"
  shows "fst (SelectQuery g table (VPtr (Some (VStruct rt vs)))) =
           Inr (''SELECT '' @ strings_Join (map name (field_columns rt)) '','' @ '' FROM '' @ table)"
proof -
  obtain m g' where "matchingOf g (VPtr (Some (VStruct rt vs))) = (Inr m, g')"
    and "columns m = field_columns rt"
    using assms by (rule matchingOf_valid)
  then show ?thesis using assms(2) by (simp add: SelectQuery_def SelectQuery_loop_eq)
qed

lemma InsertQuery_valid:
  assumes "cache_ok g" and "field_columns rt \<noteq> []"
  shows "fst (InsertQuery g table (VPtr (Some (VStruct rt vs)))) =
           (if writeable (field_columns rt) = []
            then Inl (Panic (''sx: struct '' @ TypeName rt @ '' has no writeable fields''))
            else Inr (''INSERT INTO '' @ table @ '' (''
                        @ strings_Join (map name (writeable (field_columns rt))) '',''
                        @ '') VALUES (''
                        @ strings_Join (map (Placeholder_String g)
                                          [1..int (length (writeable (field_columns rt)))]) '',''
                        @ '')''))"
proof -
  let ?dt = "VPtr (Some (VStruct rt vs))"
  obtain m g1 where m: "matchingOf g ?dt = (Inr m, g1)"
    and cols: "columns m = field_columns rt"
    and ok1: "cache_ok g1" and nb: "numberedPlaceholders g1 = numberedPlaceholders g"
    using assms by (rule matchingOf_valid)
  obtain m2 g2 where m2: "matchingOf g1 ?dt = (Inr m2, g2)" and rt2: "reflectType m2 = rt"
    using ok1 assms(2) by (rule matchingOf_valid)
  have ps: "Placeholder_String g1 = Placeholder_String g"
    using nb by (rule Placeholder_String_cong)
  show ?thesis
  proof (cases "writeable (field_columns rt) = []")
    case True
    then show ?thesis
      using m m2 rt2 cols by (simp add: InsertQuery_def InsertQuery_columns_eq)
  next
    case False
    then have "0 < int (length (writeable (field_columns rt)))" by simp
    then show ?thesis
      using False m cols ps
      by (simp add: InsertQuery_def InsertQuery_columns_eq InsertQuery_placeholders_eq)
  qed
qed

lemma UpdateAllQuery_valid:
  assumes "cache_ok g" and "field_columns rt \<noteq> []"
  shows "fst (UpdateAllQuery g table (VPtr (Some (VStruct rt vs)))) =
           Inr (''UPDATE '' @ table @ '' SET ''
                  @ strings_Join (assignments g (writeable (field_columns rt)) 1) '','')"
proof -
  obtain m g' where "matchingOf g (VPtr (Some (VStruct rt vs))) = (Inr m, g')"
    and "columns m = field_columns rt" and nb: "numberedPlaceholders g' = numberedPlaceholders g"
    using assms by (rule matchingOf_valid)
  then show ?thesis
    by (simp add: UpdateAllQuery_def UpdateAllQuery_loop_eq assignments_cong [OF nb])
qed

lemma index_field_columns: "c \<in> set (field_columns rt) \<Longrightarrow> index c < length (Fields rt)"
  by (auto simp: field_columns_def field_column_def in_set_enumerate_eq)

lemma UpdateQuery_valid:
  assumes "cache_ok g" and "field_columns rt \<noteq> []" and "wf_struct rt vs"
  shows "fst (UpdateQuery g table (VPtr (Some (VStruct rt vs)))) =
           (if changed (field_columns rt) vs = [] then Inr ('''', None)
            else Inr (''UPDATE '' @ table @ '' SET ''
                        @ strings_Join (assignments g (changed (field_columns rt) vs) 1) '','',
                      Some (map (\<lambda>c. bound_value (vs ! index c)) (changed (field_columns rt) vs))))"
proof -
  obtain m g' where m: "matchingOf g (VPtr (Some (VStruct rt vs))) = (Inr m, g')"
    and cols: "columns m = field_columns rt" and nb: "numberedPlaceholders g' = numberedPlaceholders g"
    using assms(1,2) by (rule matchingOf_valid)
  have "\<forall>c\<in>set (field_columns rt). index c < length vs"
    using assms(3) by (auto simp: wf_struct_def dest: index_field_columns)
  then show ?thesis
    using m cols nb
    by (simp add: UpdateQuery_def UpdateQuery_loop_eq assignments_cong [OF nb] assignments_Nil)
qed

lemma Addrs_valid:
  assumes "cache_ok g" and "field_columns rt \<noteq> []" and "wf_struct rt vs"
  shows "fst (Addrs g (VPtr (Some (VStruct rt vs)))) =
           Inr (map (\<lambda>c. FieldAddr (index c)) (field_columns rt))"
proof -
  obtain m g' where m: "matchingOf g (VPtr (Some (VStruct rt vs))) = (Inr m, g')"
    and cols: "columns m = field_columns rt"
    using assms(1,2) by (rule matchingOf_valid)
  have "\<forall>c\<in>set (field_columns rt). index c < length vs"
    using assms(3) by (auto simp: wf_struct_def dest: index_field_columns)
  then show ?thesis
    using m cols by (simp add: Addrs_def Addrs_loop_eq)
qed

lemma Values_valid:
  assumes "cache_ok g" and "field_columns rt \<noteq> []" and "wf_struct rt vs"
  shows "fst (Values g (VPtr (Some (VStruct rt vs)))) =
           Inr (map (\<lambda>c. vs ! index c) (writeable (field_columns rt)))"
proof -
  obtain m g' where m: "matchingOf g (VPtr (Some (VStruct rt vs))) = (Inr m, g')"
    and cols: "columns m = field_columns rt"
    using assms(1,2) by (rule matchingOf_valid)
  have "\<forall>c\<in>set (field_columns rt). index c < length vs"
    using assms(3) by (auto simp: wf_struct_def dest: index_field_columns)
  then show ?thesis
    using m cols by (simp add: Values_def Values_loop_eq)
qed

lemma cache_ok_initial: "cache_ok (initial_globals numbered)"
  by (simp add: cache_ok_def initial_globals_def)

lemma numbered_initial: "numberedPlaceholders (initial_globals numbered) = numbered"
  by (simp add: initial_globals_def)

subsection \<open>Small evaluations\<close>

lemma Itoa_small: "strconv_Itoa 1 = ''1''" "strconv_Itoa 2 = ''2''" "strconv_Itoa 3 = ''3''"
  by code_simp+

lemma upto_1_2: "[1..2] = [1, 2 :: int]"
  by (simp add: upto.simps)

lemma field_columns_menagerie0:
  "field_columns menagerie0 =
     [\<lparr>index = 0, name = ''platypus'', readonly = False\<rparr>,
      \<lparr>index = 1, name = ''rhinoceros'', readonly = False\<rparr>]"
  by code_simp

section \<open>The queries for a struct without annotations\<close>

text \<open>
  Claim C1. For the struct type with the fields \<^verbatim>\<open>Platypus string\<close> and
  \<^verbatim>\<open>Rhinoceros float64\<close> and no annotations, whatever the field values and whatever
  consistent cache the call finds: \<^verbatim>\<open>Columns\<close> returns \<open>platypus\<close> and \<open>rhinoceros\<close>,
  \<^verbatim>\<open>SelectQuery\<close> for the table \<open>zoo\<close> returns \<open>SELECT platypus,rhinoceros FROM zoo\<close>,
  and \<^verbatim>\<open>InsertQuery\<close> returns \<open>INSERT INTO zoo (platypus,rhinoceros) VALUES (?,?)\<close> with
  question-mark placeholders and \<open>... VALUES ($1,$2)\<close> with numbered ones.
\<close>

theorem menagerie0_queries:
  "cache_ok g \<Longrightarrow>
     fst (Columns g (VPtr (Some (VStruct menagerie0 vs)))) = Inr [''platypus'', ''rhinoceros''] \<and>
     fst (SelectQuery g ''zoo'' (VPtr (Some (VStruct menagerie0 vs)))) =
       Inr ''SELECT platypus,rhinoceros FROM zoo'' \<and>
     (\<not> numberedPlaceholders g \<longrightarrow>
        fst (InsertQuery g ''zoo'' (VPtr (Some (VStruct menagerie0 vs)))) =
          Inr ''INSERT INTO zoo (platypus,rhinoceros) VALUES (?,?)'') \<and>
     (numberedPlaceholders g \<longrightarrow>
        fst (InsertQuery g ''zoo'' (VPtr (Some (VStruct menagerie0 vs)))) =
          Inr ''INSERT INTO zoo (platypus,rhinoceros) VALUES ($1,$2)'')"
proof -
  assume ok: "cache_ok g"
  have ne: "field_columns menagerie0 \<noteq> []"
    by (simp add: field_columns_menagerie0)
  have "fst (Columns g (VPtr (Some (VStruct menagerie0 vs)))) = Inr [''platypus'', ''rhinoceros'']"
    by (simp add: Columns_valid [OF ok ne] field_columns_menagerie0)
  moreover have "fst (SelectQuery g ''zoo'' (VPtr (Some (VStruct menagerie0 vs)))) =
       Inr ''SELECT platypus,rhinoceros FROM zoo''"
    by (simp add: SelectQuery_valid [OF ok ne] field_columns_menagerie0)
  moreover have "fst (InsertQuery g ''zoo'' (VPtr (Some (VStruct menagerie0 vs)))) =
          Inr ''INSERT INTO zoo (platypus,rhinoceros) VALUES (?,?)''"
    if "\<not> numberedPlaceholders g"
    using that
    by (simp add: InsertQuery_valid [OF ok ne] field_columns_menagerie0 writeable_def
          Placeholder_String_def upto_1_2)
  moreover have "fst (InsertQuery g ''zoo'' (VPtr (Some (VStruct menagerie0 vs)))) =
          Inr ''INSERT INTO zoo (platypus,rhinoceros) VALUES ($1,$2)''"
    if "numberedPlaceholders g"
    using that
    by (simp add: InsertQuery_valid [OF ok ne] field_columns_menagerie0 writeable_def
          Placeholder_String_def Itoa_small upto_1_2)
  ultimately show ?thesis by blast
qed

theorem menagerie0_queries_witness:
  "cache_ok (initial_globals False) \<and> cache_ok (initial_globals True) \<and>
   fst (Columns (initial_globals False)
          (VPtr (Some (VStruct menagerie0 [VString ''yes'', VFloat64 1])))) =
     Inr [''platypus'', ''rhinoceros''] \<and>
   fst (SelectQuery (initial_globals False) ''zoo''
          (VPtr (Some (VStruct menagerie0 [VString ''yes'', VFloat64 1])))) =
     Inr ''SELECT platypus,rhinoceros FROM zoo'' \<and>
   fst (InsertQuery (initial_globals False) ''zoo''
          (VPtr (Some (VStruct menagerie0 [VString ''yes'', VFloat64 1])))) =
     Inr ''INSERT INTO zoo (platypus,rhinoceros) VALUES (?,?)'' \<and>
   fst (InsertQuery (initial_globals True) ''zoo''
          (VPtr (Some (VStruct menagerie0 [VString ''yes'', VFloat64 1])))) =
     Inr ''INSERT INTO zoo (platypus,rhinoceros) VALUES ($1,$2)''"
  using menagerie0_queries [OF cache_ok_initial, of False "[VString ''yes'', VFloat64 1]"]
    menagerie0_queries [OF cache_ok_initial, of True "[VString ''yes'', VFloat64 1]"]
  by (simp add: cache_ok_initial numbered_initial)

section \<open>The columns of a generated matching\<close>

lemma matchingOf_Inr:
  assumes "cache_ok g" and "fst (matchingOf g dt) = Inr m"
  obtains rt vs where "dt = VPtr (Some (VStruct rt vs))" and "matchingOf_generate rt = Inr m"
proof -
  have "\<exists>rt vs. dt = VPtr (Some (VStruct rt vs))"
    using assms(2) matchingOf_bad_shape [of dt g] by fastforce
  then obtain rt vs where dt: "dt = VPtr (Some (VStruct rt vs))" by blast
  with assms have "matchingOf_generate rt = Inr m" by (simp add: fst_matchingOf)
  with dt show thesis by (rule that)
qed

lemma map_index_field_column:
  "map index (map (\<lambda>(i, f). field_column i f) xs) = map fst xs"
  by (induction xs) (auto simp: field_column_def)

lemma sorted_fst_filter_enumerate: "sorted_wrt (<) (map fst (filter P (enumerate n fs)))"
  by (induction fs arbitrary: n) (auto simp: in_set_enumerate_eq)

lemma sorted_index_field_columns: "sorted_wrt (<) (map index (field_columns rt))"
  unfolding field_columns_def map_index_field_column by (rule sorted_fst_filter_enumerate)

lemma distinct_index_field_columns: "distinct (map index (field_columns rt))"
  using sorted_index_field_columns [of rt] by (simp add: strict_sorted_iff)

lemma distinct_field_columns: "distinct (field_columns rt)"
  using distinct_index_field_columns [of rt] by (rule distinct_map [THEN iffD1, THEN conjunct1])

lemma field_columns_field:
  "c \<in> set (field_columns rt) \<Longrightarrow> c = field_column (index c) (Fields rt ! index c)"
  by (auto simp: field_columns_def in_set_enumerate_eq field_column_def)

lemma in_field_columns_iff:
  "c \<in> set (field_columns rt) \<longleftrightarrow>
     (\<exists>i<length (Fields rt). usable_field (Fields rt ! i) \<and> c = field_column i (Fields rt ! i))"
  by (auto simp: field_columns_def in_set_enumerate_eq image_iff)

lemma index_set_field_columns:
  "index ` set (field_columns rt) = {i. i < length (Fields rt) \<and> usable_field (Fields rt ! i)}"
proof (intro set_eqI iffI)
  fix i assume "i \<in> index ` set (field_columns rt)"
  then show "i \<in> {i. i < length (Fields rt) \<and> usable_field (Fields rt ! i)}"
    by (auto simp: in_field_columns_iff field_column_def)
next
  fix i assume "i \<in> {i. i < length (Fields rt) \<and> usable_field (Fields rt ! i)}"
  then have "field_column i (Fields rt ! i) \<in> set (field_columns rt)"
    by (auto simp: in_field_columns_iff)
  moreover have "index (field_column i (Fields rt ! i)) = i" by (simp add: field_column_def)
  ultimately show "i \<in> index ` set (field_columns rt)" by (metis imageI)
qed

lemma columnMap_loop_index:
  "\<forall>f c. colmap f = Some c \<longrightarrow> index c < i \<Longrightarrow>
   snd (matchingOf_loop fs i cols colmap) f = Some c \<Longrightarrow> index c < i + length fs"
proof (induction fs arbitrary: i cols colmap)
  case Nil
  then show ?case by simp
next
  case (Cons x fs)
  show ?case
  proof (cases "hd (strings_Split (Tag x) CHR '','') = ''-'' \<or> PkgPath x \<noteq> ''''")
    case True
    with Cons.prems(2) have "snd (matchingOf_loop fs (i + 1) cols colmap) f = Some c"
      by (simp add: Let_def)
    moreover have "\<forall>f c. colmap f = Some c \<longrightarrow> index c < i + 1"
      using Cons.prems(1) trans_less_add1 by blast
    ultimately have "index c < i + 1 + length fs" by (rule Cons.IH [rotated])
    then show ?thesis by simp
  next
    case False
    define col where "col = \<lparr>index = i,
        name = (if hd (strings_Split (Tag x) CHR '','') = '''' then snakeCase (Name x)
                else hd (strings_Split (Tag x) CHR '','')),
        readonly = readonly_tag (tl (strings_Split (Tag x) CHR '',''))\<rparr>"
    from False Cons.prems(2)
    have "snd (matchingOf_loop fs (i + 1) (cols @ [col]) (colmap(Name x \<mapsto> col))) f = Some c"
      by (simp add: Let_def col_def)
    moreover have "\<forall>f c. (colmap(Name x \<mapsto> col)) f = Some c \<longrightarrow> index c < i + 1"
    proof (intro allI impI)
      fix f' c' assume a: "(colmap(Name x \<mapsto> col)) f' = Some c'"
      show "index c' < i + 1"
      proof (cases "f' = Name x")
        case True
        with a have "c' = col" by simp
        then show ?thesis by (simp add: col_def)
      next
        case False
        with a have "colmap f' = Some c'" by simp
        with Cons.prems(1) have "index c' < i" by blast
        then show ?thesis by simp
      qed
    qed
    ultimately have "index c < i + 1 + length fs" by (rule Cons.IH [rotated])
    then show ?thesis by simp
  qed
qed

lemma columnMap_index:
  assumes "matchingOf_generate rt = Inr m" and "columnMap m f = Some c"
  shows "index c < length (Fields rt)"
proof -
  have "columnMap m = snd (matchingOf_loop (Fields rt) 0 [] Map.empty)"
    using assms(1) by (auto simp: matchingOf_generate_eq split: if_splits)
  with assms(2) have "snd (matchingOf_loop (Fields rt) 0 [] Map.empty) f = Some c" by simp
  then have "index c < 0 + length (Fields rt)"
    by (rule columnMap_loop_index [rotated]) simp
  then show ?thesis by simp
qed

lemma writeable_Nil_iff: "writeable cs = [] \<longleftrightarrow> (\<forall>c\<in>set cs. readonly c)"
  by (auto simp: writeable_def filter_empty_conv)

section \<open>A struct whose columns are all read-only\<close>

text \<open>
  Claim C10. For a struct type whose surviving columns are all read-only,
  \<^verbatim>\<open>UpdateAllQuery\<close> does not fail: it returns \<open>UPDATE <table> SET \<close> with nothing after the
  space that follows \<open>SET\<close>, where \<^verbatim>\<open>InsertQuery\<close> panics with the message that the
  struct has no writeable fields.
\<close>

theorem UpdateAllQuery_all_readonly:
  assumes "cache_ok g" and "fst (matchingOf g dt) = Inr m" and "\<forall>c\<in>set (columns m). readonly c"
  shows "fst (UpdateAllQuery g table dt) = Inr (''UPDATE '' @ table @ '' SET '') \<and>
         fst (InsertQuery g table dt) =
           Inl (Panic (''sx: struct '' @ TypeName (reflectType m) @ '' has no writeable fields''))"
proof -
  obtain rt vs where dt: "dt = VPtr (Some (VStruct rt vs))" and m: "matchingOf_generate rt = Inr m"
    using assms(1,2) by (rule matchingOf_Inr)
  note gen = matchingOf_generate_Inr [OF m]
  have w: "writeable (field_columns rt) = []"
    using assms(3) gen(1) by (simp add: writeable_Nil_iff)
  show ?thesis
    using w gen(2)
    by (simp add: dt UpdateAllQuery_valid [OF assms(1) gen(3)] InsertQuery_valid [OF assms(1) gen(3)])
qed

theorem UpdateAllQuery_all_readonly_witness:
  "(\<exists>m. fst (matchingOf (initial_globals False)
             (VPtr (Some (VStruct \<lparr>TypeName = ''stamps'',
                Fields = [\<lparr>Name = ''Created'', PkgPath = '''', Tag = '',readonly''\<rparr>,
                          \<lparr>Name = ''Updated'', PkgPath = '''', Tag = ''changed,readonly''\<rparr>]\<rparr>
                [VInt 1, VInt 2])))) = Inr m \<and>
        list_all readonly (columns m)) \<and>
   fst (UpdateAllQuery (initial_globals False) ''log''
          (VPtr (Some (VStruct \<lparr>TypeName = ''stamps'',
                Fields = [\<lparr>Name = ''Created'', PkgPath = '''', Tag = '',readonly''\<rparr>,
                          \<lparr>Name = ''Updated'', PkgPath = '''', Tag = ''changed,readonly''\<rparr>]\<rparr>
                [VInt 1, VInt 2])))) = Inr ''UPDATE log SET '' \<and>
   fst (InsertQuery (initial_globals False) ''log''
          (VPtr (Some (VStruct \<lparr>TypeName = ''stamps'',
                Fields = [\<lparr>Name = ''Created'', PkgPath = '''', Tag = '',readonly''\<rparr>,
                          \<lparr>Name = ''Updated'', PkgPath = '''', Tag = ''changed,readonly''\<rparr>]\<rparr>
                [VInt 1, VInt 2])))) = Inl (Panic ''sx: struct stamps has no writeable fields'')"
proof -
  let ?rt = "\<lparr>TypeName = ''stamps'',
                Fields = [\<lparr>Name = ''Created'', PkgPath = '''', Tag = '',readonly''\<rparr>,
                          \<lparr>Name = ''Updated'', PkgPath = '''', Tag = ''changed,readonly''\<rparr>]\<rparr>"
  let ?dt = "VPtr (Some (VStruct ?rt [VInt 1, VInt 2]))"
  have fc: "field_columns ?rt =
      [\<lparr>index = 0, name = ''created'', readonly = True\<rparr>,
       \<lparr>index = 1, name = ''changed'', readonly = True\<rparr>]"
    by code_simp
  then have ne: "field_columns ?rt \<noteq> []" by simp
  obtain m g' where m: "matchingOf (initial_globals False) ?dt = (Inr m, g')"
    and cols: "columns m = field_columns ?rt" and rt: "reflectType m = ?rt"
    using cache_ok_initial ne by (rule matchingOf_valid)
  have ro: "\<forall>c\<in>set (columns m). readonly c" by (simp add: cols fc)
  have f: "fst (matchingOf (initial_globals False) ?dt) = Inr m" by (simp add: m)
  from UpdateAllQuery_all_readonly [OF cache_ok_initial f ro, of "''log''"] f ro rt
  show ?thesis by (auto simp: list_all_iff)
qed

section \<open>Arguments that have no matching\<close>

lemma aborts_withI:
  assumes "matchingOf g dt = (Inl e, g)"
  shows "aborts_with g dt e"
  unfolding aborts_with_def
  using assms
  by (simp add: SelectQuery_def SelectAliasQuery_def InsertQuery_def UpdateQuery_def
        UpdateAllQuery_def UpdateFieldsQuery_def Addrs_def Values_def ValueOf_def Columns_def
        ColumnsWriteable_def ColumnOf_def)

lemma field_columns_Nil_iff:
  "field_columns rt = [] \<longleftrightarrow> (\<forall>f\<in>set (Fields rt). \<not> usable_field f)"
proof -
  have "field_columns rt = [] \<longleftrightarrow> set (field_columns rt) = {}" by simp
  also have "\<dots> \<longleftrightarrow> (\<forall>i<length (Fields rt). \<not> usable_field (Fields rt ! i))"
    by (auto simp: in_field_columns_iff set_eq_iff simp del: set_empty)
  also have "\<dots> \<longleftrightarrow> (\<forall>f\<in>set (Fields rt). \<not> usable_field f)"
    by (metis in_set_conv_nth)
  finally show ?thesis .
qed

lemma cache_ok_columns:
  "cache_ok g \<Longrightarrow> matchingCache g rt = Some m \<Longrightarrow> columns m \<noteq> []"
  using matchingOf_generate_Inr(1,3) by (fastforce simp: cache_ok_def)

text \<open>
  Claim C6. \<^verbatim>\<open>matchingOf\<close>, and with it every builder and accessor, panics with
  \<open>sx: expected a pointer to a struct\<close> when its argument is not a pointer to a struct (nil, a
  nil pointer, a struct passed by value, any other value), and with
  \<open>sx: struct T has no usable fields\<close> when no field of the struct type \<open>T\<close> is usable. In
  both cases the globals are returned as they were, so nothing is cached; and a matching that
  \<^verbatim>\<open>matchingOf\<close> returns, or that is in the cache after the call, has at least one column.
\<close>

theorem matchingOf_panics:
  "((\<nexists>rt vs. dt = VPtr (Some (VStruct rt vs))) \<longrightarrow>
      aborts_with g dt (Panic ''sx: expected a pointer to a struct'')) \<and>
   (cache_ok g \<and> (\<forall>f\<in>set (Fields rt). \<not> usable_field f) \<longrightarrow>
      aborts_with g (VPtr (Some (VStruct rt vs)))
        (Panic (''sx: struct '' @ TypeName rt @ '' has no usable fields''))) \<and>
   (cache_ok g \<longrightarrow>
      (\<forall>m. fst (matchingOf g dt) = Inr m \<longrightarrow> columns m \<noteq> []) \<and>
      (\<forall>t m. matchingCache (snd (matchingOf g dt)) t = Some m \<longrightarrow> columns m \<noteq> []))"
proof (intro conjI impI allI)
  assume "\<nexists>rt vs. dt = VPtr (Some (VStruct rt vs))"
  then show "aborts_with g dt (Panic ''sx: expected a pointer to a struct'')"
    by (intro aborts_withI matchingOf_bad_shape)
next
  assume "cache_ok g \<and> (\<forall>f\<in>set (Fields rt). \<not> usable_field f)"
  then show "aborts_with g (VPtr (Some (VStruct rt vs)))
        (Panic (''sx: struct '' @ TypeName rt @ '' has no usable fields''))"
    by (intro aborts_withI matchingOf_no_usable) (simp_all add: field_columns_Nil_iff)
next
  fix m assume ok: "cache_ok g" and m: "fst (matchingOf g dt) = Inr m"
  obtain rt vs where "matchingOf_generate rt = Inr m"
    using ok m by (rule matchingOf_Inr)
  then show "columns m \<noteq> []" using matchingOf_generate_Inr(1,3) by metis
next
  fix t m assume "cache_ok g" and "matchingCache (snd (matchingOf g dt)) t = Some m"
  then show "columns m \<noteq> []"
    using cache_ok_matchingOf [of g dt] cache_ok_columns by blast
qed

theorem matchingOf_panics_witness:
  "aborts_with (initial_globals False) VNil (Panic ''sx: expected a pointer to a struct'') \<and>
   aborts_with (initial_globals False) (VString ''hello'')
     (Panic ''sx: expected a pointer to a struct'') \<and>
   aborts_with (initial_globals False) (VStruct menagerie0 [VString '''', VFloat64 0])
     (Panic ''sx: expected a pointer to a struct'') \<and>
   aborts_with (initial_globals False) (VPtr None) (Panic ''sx: expected a pointer to a struct'') \<and>
   aborts_with (initial_globals False) (VPtr (Some (VStruct test2 [VInt 0])))
     (Panic ''sx: struct test2 has no usable fields'') \<and>
   aborts_with (initial_globals False) (VPtr (Some (VStruct test3 [VInt 0])))
     (Panic ''sx: struct test3 has no usable fields'') \<and>
   (\<exists>m. fst (matchingOf (initial_globals False)
             (VPtr (Some (VStruct menagerie0 [VString '''', VFloat64 0])))) = Inr m \<and>
        length (columns m) = 2)"
proof -
  have u2: "\<forall>f\<in>set (Fields test2). \<not> usable_field f"
    and u3: "\<forall>f\<in>set (Fields test3). \<not> usable_field f"
    by (simp_all add: test2_def test3_def usable_field_def tag_name_def)
  have ne: "field_columns menagerie0 \<noteq> []" by (simp add: field_columns_menagerie0)
  obtain m g' where "matchingOf (initial_globals False)
        (VPtr (Some (VStruct menagerie0 [VString '''', VFloat64 0]))) = (Inr m, g')"
    and "columns m = field_columns menagerie0"
    using cache_ok_initial ne by (rule matchingOf_valid)
  then have "\<exists>m. fst (matchingOf (initial_globals False)
             (VPtr (Some (VStruct menagerie0 [VString '''', VFloat64 0])))) = Inr m \<and>
        length (columns m) = 2"
    by (simp add: field_columns_menagerie0)
  then show ?thesis
    using matchingOf_panics [of VNil "initial_globals False" test2 "[VInt 0]"]
      matchingOf_panics [of "VString ''hello''" "initial_globals False" test3 "[VInt 0]"]
      matchingOf_panics [of "VStruct menagerie0 [VString '''', VFloat64 0]" "initial_globals False"
        test2 "[VInt 0]"]
      matchingOf_panics [of "VPtr None" "initial_globals False" test2 "[VInt 0]"]
      u2 u3 cache_ok_initial [of False]
    by (simp add: test2_def test3_def)
qed

section \<open>Read-only and excluded fields\<close>

lemma field_columns_menagerie1:
  "field_columns menagerie1 =
     [\<lparr>index = 0, name = ''human'', readonly = False\<rparr>,
      \<lparr>index = 1, name = ''flamingo'', readonly = True\<rparr>]"
  by code_simp

text \<open>
  Claim C2. Take a struct type with an exported field \<open>i\<close> annotated read-only, a field \<open>j\<close>
  annotated \<open>-\<close> and a usable field \<open>k\<close> that is not read-only. The column list of the
  matching, which \<^verbatim>\<open>Columns\<close> returns and \<^verbatim>\<open>SelectQuery\<close> writes, has the column of field
  \<open>i\<close> and none for field \<open>j\<close>; the writeable columns, which \<^verbatim>\<open>InsertQuery\<close> and
  \<^verbatim>\<open>UpdateAllQuery\<close> write, have neither, and have the column of field \<open>k\<close>.
\<close>

theorem readonly_and_excluded_fields:
  assumes "cache_ok g" and "dt = VPtr (Some (VStruct rt vs))"
    and "i < length (Fields rt)" and "usable_field (Fields rt ! i)" and "tag_readonly (Fields rt ! i)"
    and "j < length (Fields rt)" and "tag_name (Fields rt ! j) = ''-''"
    and "k < length (Fields rt)" and "usable_field (Fields rt ! k)"
    and "\<not> tag_readonly (Fields rt ! k)"
  shows "\<exists>m. fst (matchingOf g dt) = Inr m \<and>
           i \<in> index ` set (columns m) \<and> j \<notin> index ` set (columns m) \<and>
           i \<notin> index ` set (writeable (columns m)) \<and> j \<notin> index ` set (writeable (columns m)) \<and>
           k \<in> index ` set (writeable (columns m)) \<and>
           fst (Columns g dt) = Inr (map name (columns m)) \<and>
           fst (SelectQuery g table dt) =
             Inr (''SELECT '' @ strings_Join (map name (columns m)) '','' @ '' FROM '' @ table) \<and>
           fst (InsertQuery g table dt) =
             Inr (''INSERT INTO '' @ table @ '' (''
                    @ strings_Join (map name (writeable (columns m))) '','' @ '') VALUES (''
                    @ strings_Join (map (Placeholder_String g)
                                      [1..int (length (writeable (columns m)))]) '','' @ '')'') \<and>
           fst (UpdateAllQuery g table dt) =
             Inr (''UPDATE '' @ table @ '' SET ''
                    @ strings_Join (assignments g (writeable (columns m)) 1) '','')"
proof -
  let ?cs = "field_columns rt"
  have ci: "field_column i (Fields rt ! i) \<in> set ?cs" and ck: "field_column k (Fields rt ! k) \<in> set ?cs"
    using assms(3,4,8,9) by (auto simp: in_field_columns_iff)
  then have ne: "?cs \<noteq> []" by auto
  obtain m g' where m: "matchingOf g dt = (Inr m, g')" and cols: "columns m = ?cs"
    unfolding assms(2) using assms(1) ne by (rule matchingOf_valid)
  have i_in: "i \<in> index ` set ?cs"
    using assms(3,4) by (simp add: index_set_field_columns)
  have j_out: "j \<notin> index ` set ?cs"
    using assms(7) by (simp add: index_set_field_columns usable_field_def)
  have ro: "readonly c \<longleftrightarrow> tag_readonly (Fields rt ! index c)" if "c \<in> set ?cs" for c
    using field_columns_field [OF that] by (metis column.select_convs(3) field_column_def)
  have i_ro: "i \<notin> index ` set (writeable ?cs)"
    using assms(5) ro by (auto simp: writeable_def)
  have j_ro: "j \<notin> index ` set (writeable ?cs)"
    using j_out by (auto simp: writeable_def)
  have "field_column k (Fields rt ! k) \<in> set (writeable ?cs)"
    using ck assms(10) by (simp add: writeable_def field_column_def)
  then have wne: "writeable ?cs \<noteq> []" and k_in: "k \<in> index ` set (writeable ?cs)"
    by (auto simp: image_iff field_column_def intro!: bexI [of _ "field_column k (Fields rt ! k)"])
  show ?thesis
    using m cols i_in j_out i_ro j_ro k_in wne
    by (simp add: assms(2) Columns_valid [OF assms(1) ne] SelectQuery_valid [OF assms(1) ne]
          InsertQuery_valid [OF assms(1) ne] UpdateAllQuery_valid [OF assms(1) ne])
qed

theorem readonly_and_excluded_fields_witness:
  "fst (Columns (initial_globals True)
          (VPtr (Some (VStruct menagerie1 [VInt 64, VString ''maybe'', VString ''no''])))) =
     Inr [''human'', ''flamingo''] \<and>
   fst (SelectQuery (initial_globals True) ''jungle''
          (VPtr (Some (VStruct menagerie1 [VInt 64, VString ''maybe'', VString ''no''])))) =
     Inr ''SELECT human,flamingo FROM jungle'' \<and>
   fst (InsertQuery (initial_globals True) ''jungle''
          (VPtr (Some (VStruct menagerie1 [VInt 64, VString ''maybe'', VString ''no''])))) =
     Inr ''INSERT INTO jungle (human) VALUES ($1)'' \<and>
   fst (UpdateAllQuery (initial_globals True) ''jungle''
          (VPtr (Some (VStruct menagerie1 [VInt 64, VString ''maybe'', VString ''no''])))) =
     Inr ''UPDATE jungle SET human=$2''"
proof -
  let ?vs = "[VInt 64, VString ''maybe'', VString ''no'']"
  let ?dt = "VPtr (Some (VStruct menagerie1 ?vs))"
  have h: "(1::nat) < length (Fields menagerie1)" "usable_field (Fields menagerie1 ! 1)"
    "tag_readonly (Fields menagerie1 ! 1)"
    "(2::nat) < length (Fields menagerie1)" "tag_name (Fields menagerie1 ! 2) = ''-''"
    "(0::nat) < length (Fields menagerie1)" "usable_field (Fields menagerie1 ! 0)"
    "\<not> tag_readonly (Fields menagerie1 ! 0)"
    by code_simp+
  have ne: "field_columns menagerie1 \<noteq> []" by (simp add: field_columns_menagerie1)
  obtain m0 g' where m0: "matchingOf (initial_globals True) ?dt = (Inr m0, g')"
    and cols: "columns m0 = field_columns menagerie1"
    using cache_ok_initial ne by (rule matchingOf_valid)
  from readonly_and_excluded_fields [OF cache_ok_initial refl h, of True ?vs "''jungle''"]
  obtain m where m: "fst (matchingOf (initial_globals True) ?dt) = Inr m"
    and r: "fst (Columns (initial_globals True) ?dt) = Inr (map name (columns m))"
    "fst (SelectQuery (initial_globals True) ''jungle'' ?dt) =
             Inr (''SELECT '' @ strings_Join (map name (columns m)) '','' @ '' FROM '' @ ''jungle'')"
    "fst (InsertQuery (initial_globals True) ''jungle'' ?dt) =
             Inr (''INSERT INTO '' @ ''jungle'' @ '' (''
                    @ strings_Join (map name (writeable (columns m))) '','' @ '') VALUES (''
                    @ strings_Join (map (Placeholder_String (initial_globals True))
                                      [1..int (length (writeable (columns m)))]) '','' @ '')'')"
    "fst (UpdateAllQuery (initial_globals True) ''jungle'' ?dt) =
             Inr (''UPDATE '' @ ''jungle'' @ '' SET ''
                    @ strings_Join (assignments (initial_globals True) (writeable (columns m)) 1) '','')"
    by blast
  from m m0 have "m = m0" by simp
  with cols have c: "columns m = field_columns menagerie1" by simp
  show ?thesis
    unfolding r c field_columns_menagerie1
    by (simp add: writeable_def Placeholder_String_def numbered_initial Itoa_small upto.simps)
qed

section \<open>Addresses and values\<close>

lemma field_columns_menagerie2:
  "field_columns menagerie2 =
     [\<lparr>index = 0, name = ''cougar'', readonly = False\<rparr>,
      \<lparr>index = 1, name = ''cat'', readonly = False\<rparr>,
      \<lparr>index = 2, name = ''grizzly'', readonly = False\<rparr>,
      \<lparr>index = 3, name = ''wilderbeast'', readonly = False\<rparr>,
      \<lparr>index = 5, name = ''bee'', readonly = True\<rparr>]"
  by code_simp

lemma matchingOf_struct:
  assumes "cache_ok g" and "fst (matchingOf g (VPtr (Some (VStruct rt vs)))) = Inr m"
  shows "columns m = field_columns rt" and "reflectType m = rt" and "field_columns rt \<noteq> []"
    and "matchingOf_generate rt = Inr m"
proof -
  show g: "matchingOf_generate rt = Inr m"
    using assms by (simp add: fst_matchingOf)
  show "columns m = field_columns rt" "reflectType m = rt" "field_columns rt \<noteq> []"
    using matchingOf_generate_Inr [OF g] by simp_all
qed

lemma index_columns:
  assumes "cache_ok g" and "fst (matchingOf g (VPtr (Some (VStruct rt vs)))) = Inr m"
    and "wf_struct rt vs" and "c \<in> set (columns m)"
  shows "index c < length vs"
  using assms matchingOf_struct(1) [OF assms(1,2)] index_field_columns [of c rt]
  by (simp add: wf_struct_def)

text \<open>
  Claim C8. For a pointer to a well-formed struct whose type has a matching, \<^verbatim>\<open>Addrs\<close>
  returns the address of the field of every column, read-only ones too, in the order of the
  matching, which is the order of declaration; \<^verbatim>\<open>Values\<close> returns the field value of
  every writeable column, in that order, whatever the values are.
\<close>

theorem Addrs_and_Values:
  assumes "cache_ok g" and "dt = VPtr (Some (VStruct rt vs))" and "wf_struct rt vs"
    and "fst (matchingOf g dt) = Inr m"
  shows "fst (Addrs g dt) = Inr (map (\<lambda>c. FieldAddr (index c)) (columns m)) \<and>
         fst (Values g dt) = Inr (map (\<lambda>c. vs ! index c) (writeable (columns m))) \<and>
         sorted_wrt (<) (map index (columns m)) \<and>
         (\<forall>c\<in>set (columns m). index c < length vs)"
proof -
  note s = matchingOf_struct [OF assms(1) assms(4) [unfolded assms(2)]]
  show ?thesis
    using index_columns [OF assms(1) assms(4) [unfolded assms(2)] assms(3)]
    by (simp add: assms(2) s(1) Addrs_valid [OF assms(1) s(3) assms(3)]
          Values_valid [OF assms(1) s(3) assms(3)] sorted_index_field_columns)
qed

theorem Addrs_and_Values_witness:
  "fst (Addrs (initial_globals False)
          (VPtr (Some (VStruct menagerie1 [VInt 0, VString ''maybe'', VString ''no''])))) =
     Inr [FieldAddr 0, FieldAddr 1] \<and>
   fst (Values (initial_globals False)
          (VPtr (Some (VStruct menagerie1 [VInt 0, VString ''maybe'', VString ''no''])))) =
     Inr [VInt 0]"
proof -
  let ?vs = "[VInt 0, VString ''maybe'', VString ''no'']"
  let ?dt = "VPtr (Some (VStruct menagerie1 ?vs))"
  have ne: "field_columns menagerie1 \<noteq> []" by (simp add: field_columns_menagerie1)
  obtain m g' where m: "matchingOf (initial_globals False) ?dt = (Inr m, g')"
    and cols: "columns m = field_columns menagerie1"
    using cache_ok_initial ne by (rule matchingOf_valid)
  have wf: "wf_struct menagerie1 ?vs" by (simp add: wf_struct_def menagerie1_def)
  have f: "fst (matchingOf (initial_globals False) ?dt) = Inr m" by (simp add: m)
  show ?thesis
    using Addrs_and_Values [OF cache_ok_initial refl wf f]
    by (simp add: cols field_columns_menagerie1 writeable_def)
qed

section \<open>The update builders\<close>

lemma UpdateFieldsQuery_loop_eq:
  assumes "\<forall>f c. columnMap m f = Some c \<longrightarrow> index c < length vs"
  shows "UpdateFieldsQuery_loop g m (VStruct rt vs) flds cols vals p =
           (case find (\<lambda>f. columnMap m f = None) flds of
              Some f \<Rightarrow>
                Inl (Panic (''struct '' @ TypeName (reflectType m) @ '' has no usable field '' @ f))
            | None \<Rightarrow>
                Inr (cols @ assignments g (map (\<lambda>f. the (columnMap m f)) flds) p,
                     vals @ map (\<lambda>f. vs ! index (the (columnMap m f))) flds))"
  using assms
  by (induction flds arbitrary: cols vals p)
     (auto simp: Placeholder_Next_def split: option.splits)

lemma UpdateFieldsQuery_valid:
  assumes "cache_ok g" and "fst (matchingOf g (VPtr (Some (VStruct rt vs)))) = Inr m"
    and "wf_struct rt vs"
  shows "fst (UpdateFieldsQuery g table (VPtr (Some (VStruct rt vs))) flds) =
           (if flds = [] then Inl (Panic ''UpdateFieldsQuery requires at least one field'')
            else case find (\<lambda>f. columnMap m f = None) flds of
              Some f \<Rightarrow>
                Inl (Panic (''struct '' @ TypeName rt @ '' has no usable field '' @ f))
            | None \<Rightarrow>
                Inr (''UPDATE '' @ table @ '' SET ''
                       @ strings_Join (assignments g (map (\<lambda>f. the (columnMap m f)) flds) 1) '','',
                     map (\<lambda>f. vs ! index (the (columnMap m f))) flds))"
proof -
  note s = matchingOf_struct [OF assms(1,2)]
  obtain m' g' where m': "matchingOf g (VPtr (Some (VStruct rt vs))) = (Inr m', g')"
    and nb: "numberedPlaceholders g' = numberedPlaceholders g"
    using assms(1) s(3) by (rule matchingOf_valid)
  with assms(2) have mm: "m' = m" by simp
  have ix: "\<forall>f c. columnMap m f = Some c \<longrightarrow> index c < length vs"
    using columnMap_index [OF s(4)] assms(3) by (simp add: wf_struct_def)
  show ?thesis
    using m' mm s(2)
    by (simp add: UpdateFieldsQuery_def UpdateFieldsQuery_loop_eq [OF ix]
          assignments_cong [OF nb] split: option.splits)
qed

lemma filter_eq_singleton:
  "distinct xs \<Longrightarrow> x \<in> set xs \<Longrightarrow> P x \<Longrightarrow> \<forall>y\<in>set xs. y \<noteq> x \<longrightarrow> \<not> P y \<Longrightarrow> filter P xs = [x]"
proof (induction xs)
  case Nil
  then show ?case by simp
next
  case (Cons a xs)
  show ?case
  proof (cases "a = x")
    case True
    with Cons.prems have "filter P xs = []" by (auto simp: filter_empty_conv)
    with True Cons.prems(3) show ?thesis by simp
  next
    case False
    with Cons show ?thesis by auto
  qed
qed

lemma changed_writeable: "changed cs vs = filter (\<lambda>c. \<not> valueIsZero (vs ! index c)) (writeable cs)"
  by (simp add: changed_def writeable_def conj_commute)

lemma UpdateQuery_struct:
  assumes "cache_ok g" and "fst (matchingOf g (VPtr (Some (VStruct rt vs)))) = Inr m"
    and "wf_struct rt vs"
  shows "fst (UpdateQuery g table (VPtr (Some (VStruct rt vs)))) =
           (if changed (columns m) vs = [] then Inr ('''', None)
            else Inr (''UPDATE '' @ table @ '' SET ''
                        @ strings_Join (assignments g (changed (columns m) vs) 1) '','',
                      Some (map (\<lambda>c. bound_value (vs ! index c)) (changed (columns m) vs))))"
  using matchingOf_struct(1,3) [OF assms(1,2)] UpdateQuery_valid [OF assms(1) _ assms(3)]
  by simp

lemma UpdateAllQuery_struct:
  assumes "cache_ok g" and "fst (matchingOf g (VPtr (Some (VStruct rt vs)))) = Inr m"
  shows "fst (UpdateAllQuery g table (VPtr (Some (VStruct rt vs)))) =
           Inr (''UPDATE '' @ table @ '' SET ''
                  @ strings_Join (assignments g (writeable (columns m)) 1) '','')"
  using matchingOf_struct(1,3) [OF assms(1,2)] UpdateAllQuery_valid [OF assms(1)]
  by simp

text \<open>
  Claim C5. The three update builders write the assignments \<open>assignments g cs 1\<close> of their
  columns \<open>cs\<close>; the assignment at position \<open>n\<close>, counted from zero, ends in \<open>$\<close> and the
  number \<open>n + 2\<close> with numbered placeholders, so that the first one is \<open>$2\<close>, and in \<open>?\<close>
  otherwise. \<^verbatim>\<open>Next\<close>, on a counter \<open>p\<close> that its increment does not overflow
  (\<open>p\<close> below \<open>2 ^ 63 - 1\<close>), adds one to the counter and renders the new value: from zero
  it gives \<open>$1\<close>, from one \<open>$2\<close>.
\<close>

theorem update_placeholders:
  assumes "cache_ok g" and "dt = VPtr (Some (VStruct rt vs))" and "wf_struct rt vs"
    and "fst (matchingOf g dt) = Inr m"
  shows "fst (UpdateAllQuery g table dt) =
           Inr (''UPDATE '' @ table @ '' SET ''
                  @ strings_Join (assignments g (writeable (columns m)) 1) '','') \<and>
         fst (UpdateQuery g table dt) =
           (if changed (columns m) vs = [] then Inr ('''', None)
            else Inr (''UPDATE '' @ table @ '' SET ''
                        @ strings_Join (assignments g (changed (columns m) vs) 1) '','',
                      Some (map (\<lambda>c. bound_value (vs ! index c)) (changed (columns m) vs)))) \<and>
         (flds \<noteq> [] \<and> (\<forall>f\<in>set flds. columnMap m f \<noteq> None) \<longrightarrow>
            fst (UpdateFieldsQuery g table dt flds) =
              Inr (''UPDATE '' @ table @ '' SET ''
                     @ strings_Join (assignments g (map (\<lambda>f. the (columnMap m f)) flds) 1) '','',
                   map (\<lambda>f. vs ! index (the (columnMap m f))) flds)) \<and>
         length (assignments g cs 1) = length cs \<and>
         (\<forall>n<length cs.
            assignments g cs 1 ! n =
              name (cs ! n) @ ''=''
                @ (if numberedPlaceholders g then ''$'' @ strconv_Itoa (int n + 2) else ''?'')) \<and>
         (- (2 ^ 63) \<le> p \<and> p < 2 ^ 63 - 1 \<longrightarrow>
            snd (Placeholder_Next g p) = p + 1 \<and>
            fst (Placeholder_Next g p) =
              (if numberedPlaceholders g then ''$'' @ strconv_Itoa (p + 1) else ''?'')) \<and>
         (numberedPlaceholders g \<longrightarrow>
            fst (Placeholder_Next g 0) = ''$1'' \<and> fst (Placeholder_Next g 1) = ''$2'')"
proof -
  note mo = assms(4) [unfolded assms(2)]
  have none: "find (\<lambda>f. columnMap m f = None) flds = None" if "\<forall>f\<in>set flds. columnMap m f \<noteq> None"
    using that by (simp add: find_None_iff)
  have nth: "assignments g cs 1 ! n =
              name (cs ! n) @ ''=''
                @ (if numberedPlaceholders g then ''$'' @ strconv_Itoa (int n + 2) else ''?'')"
    if "n < length cs" for n
    using nth_assignments [OF that, of g 1] by (simp add: Placeholder_String_def add.commute)
  show ?thesis
    using nth none
    by (simp add: assms(2) UpdateAllQuery_struct [OF assms(1) mo]
          UpdateQuery_struct [OF assms(1) mo assms(3)]
          UpdateFieldsQuery_valid [OF assms(1) mo assms(3)] length_assignments
          Placeholder_Next_def Placeholder_String_def Itoa_small)
qed

lemma snakeCase_menagerie0:
  "snakeCase ''Platypus'' = ''platypus''" "snakeCase ''Rhinoceros'' = ''rhinoceros''"
  by code_simp+

theorem update_placeholders_witness:
  "fst (UpdateAllQuery (initial_globals True) ''zoo''
          (VPtr (Some (VStruct menagerie0 [VString ''abc'', VFloat64 (- 5)])))) =
     Inr ''UPDATE zoo SET platypus=$2,rhinoceros=$3'' \<and>
   fst (UpdateQuery (initial_globals True) ''zoo''
          (VPtr (Some (VStruct menagerie0 [VString ''abc'', VFloat64 (- 5)])))) =
     Inr (''UPDATE zoo SET platypus=$2,rhinoceros=$3'', Some [VString ''abc'', VFloat64 (- 5)]) \<and>
   fst (UpdateFieldsQuery (initial_globals True) ''zoo''
          (VPtr (Some (VStruct menagerie0 [VString ''abc'', VFloat64 (- 5)])))
          [''Rhinoceros'', ''Platypus'']) =
     Inr (''UPDATE zoo SET rhinoceros=$2,platypus=$3'', [VFloat64 (- 5), VString ''abc'']) \<and>
   fst (UpdateAllQuery (initial_globals False) ''zoo''
          (VPtr (Some (VStruct menagerie0 [VString ''abc'', VFloat64 (- 5)])))) =
     Inr ''UPDATE zoo SET platypus=?,rhinoceros=?'' \<and>
   Placeholder_Next (initial_globals True) 0 = (''$1'', 1) \<and>
   Placeholder_Next (initial_globals False) 0 = (''?'', 1)"
proof -
  let ?vs = "[VString ''abc'', VFloat64 (- 5)]"
  let ?dt = "VPtr (Some (VStruct menagerie0 ?vs))"
  let ?cs = "[\<lparr>index = 0, name = ''platypus'', readonly = False\<rparr>,
      \<lparr>index = 1, name = ''rhinoceros'', readonly = False\<rparr>]"
  have ne: "field_columns menagerie0 \<noteq> []" by (simp add: field_columns_menagerie0)
  have wf: "wf_struct menagerie0 ?vs" by (simp add: wf_struct_def menagerie0_def)
  have gen: "matchingOf_generate menagerie0 =
      Inr \<lparr>reflectType = menagerie0, columns = ?cs,
           columnMap = [''Platypus'' \<mapsto> \<lparr>index = 0, name = ''platypus'', readonly = False\<rparr>,
                        ''Rhinoceros'' \<mapsto> \<lparr>index = 1, name = ''rhinoceros'', readonly = False\<rparr>]\<rparr>"
    (is "_ = Inr ?m")
    by (simp add: matchingOf_generate_def menagerie0_def Let_def snakeCase_menagerie0)
  have f: "fst (matchingOf (initial_globals b) ?dt) = Inr ?m" for b
    by (simp add: fst_matchingOf [OF cache_ok_initial] gen)
  have r: "flds \<noteq> [] \<and> (\<forall>f\<in>set flds. columnMap ?m f \<noteq> None)"
    if "flds = [''Rhinoceros'', ''Platypus'']" for flds
    using that by simp
  show ?thesis
    using update_placeholders [OF cache_ok_initial refl wf f, of True "''zoo''"
        "[''Rhinoceros'', ''Platypus'']" ?cs 0]
      update_placeholders [OF cache_ok_initial refl wf f, of False "''zoo''"
        "[''Rhinoceros'', ''Platypus'']" ?cs 0]
    by (simp add: numbered_initial writeable_def changed_def bound_value_def Itoa_small
          Placeholder_String_def prod_eq_iff)
qed

text \<open>
  Claim C3. \<^verbatim>\<open>UpdateQuery\<close> on a pointer to a well-formed struct: when the fields of all
  writeable columns are zero, it returns the empty string and a nil value list; when exactly
  one writeable column \<open>c0\<close> has a field that is not zero, it returns the assignment of \<open>c0\<close>
  alone and the one value bound for it; in general it writes exactly the writeable columns
  whose field is not zero, and a nil pointer is zero.
\<close>

theorem UpdateQuery_skips_zero_values:
  assumes "cache_ok g" and "dt = VPtr (Some (VStruct rt vs))" and "wf_struct rt vs"
    and "fst (matchingOf g dt) = Inr m"
  shows "((\<forall>c\<in>set (writeable (columns m)). valueIsZero (vs ! index c)) \<longrightarrow>
            fst (UpdateQuery g table dt) = Inr ('''', None)) \<and>
         (c0 \<in> set (writeable (columns m)) \<and> \<not> valueIsZero (vs ! index c0) \<and>
          (\<forall>c\<in>set (writeable (columns m)). c \<noteq> c0 \<longrightarrow> valueIsZero (vs ! index c)) \<longrightarrow>
            fst (UpdateQuery g table dt) =
              Inr (''UPDATE '' @ table @ '' SET '' @ name c0 @ ''='' @ Placeholder_String g 2,
                   Some [bound_value (vs ! index c0)])) \<and>
         fst (UpdateQuery g table dt) =
           (if changed (columns m) vs = [] then Inr ('''', None)
            else Inr (''UPDATE '' @ table @ '' SET ''
                        @ strings_Join (assignments g (changed (columns m) vs) 1) '','',
                      Some (map (\<lambda>c. bound_value (vs ! index c)) (changed (columns m) vs)))) \<and>
         (\<forall>c\<in>set (columns m).
            c \<in> set (changed (columns m) vs) \<longleftrightarrow> \<not> readonly c \<and> \<not> valueIsZero (vs ! index c)) \<and>
         valueIsZero (VPtr None)"
proof -
  note mo = assms(4) [unfolded assms(2)]
  note uq = UpdateQuery_struct [OF assms(1) mo assms(3), of table]
  have a: "changed (columns m) vs = []"
    if "\<forall>c\<in>set (writeable (columns m)). valueIsZero (vs ! index c)"
    using that by (simp add: changed_writeable filter_empty_conv)
  have d: "distinct (writeable (columns m))"
    using distinct_field_columns [of rt] matchingOf_struct(1) [OF assms(1) mo]
    by (simp add: writeable_def)
  have b: "changed (columns m) vs = [c0]"
    if "c0 \<in> set (writeable (columns m)) \<and> \<not> valueIsZero (vs ! index c0) \<and>
          (\<forall>c\<in>set (writeable (columns m)). c \<noteq> c0 \<longrightarrow> valueIsZero (vs ! index c))"
    unfolding changed_writeable using d that by (intro filter_eq_singleton) auto
  have c: "\<forall>c\<in>set (columns m).
            c \<in> set (changed (columns m) vs) \<longleftrightarrow> \<not> readonly c \<and> \<not> valueIsZero (vs ! index c)"
    by (simp add: changed_def)
  show ?thesis
    using a b c uq by (simp add: assms(2))
qed

theorem UpdateQuery_skips_zero_values_witness:
  "fst (UpdateQuery (initial_globals True) ''asia''
          (VPtr (Some (VStruct menagerie2
             [VString '''', VPtr None, VInt 0, VSlice None, VBool True, VBool True])))) =
     Inr ('''', None) \<and>
   fst (UpdateQuery (initial_globals True) ''asia''
          (VPtr (Some (VStruct menagerie2
             [VString '''', VPtr None, VInt 5, VSlice None, VBool True, VBool True])))) =
     Inr (''UPDATE asia SET grizzly=$2'', Some [VInt 5])"
proof -
  let ?v0 = "[VString '''', VPtr None, VInt 0, VSlice None, VBool True, VBool True]"
  let ?v1 = "[VString '''', VPtr None, VInt 5, VSlice None, VBool True, VBool True]"
  let ?c = "\<lparr>index = 2, name = ''grizzly'', readonly = False\<rparr>"
  have ne: "field_columns menagerie2 \<noteq> []" by (simp add: field_columns_menagerie2)
  have wf: "wf_struct menagerie2 ?v0" "wf_struct menagerie2 ?v1"
    by (simp_all add: wf_struct_def menagerie2_def)
  obtain m0 g0 where m0: "matchingOf (initial_globals True) (VPtr (Some (VStruct menagerie2 ?v0))) = (Inr m0, g0)"
    and c0: "columns m0 = field_columns menagerie2"
    using cache_ok_initial ne by (rule matchingOf_valid)
  obtain m1 g1 where m1: "matchingOf (initial_globals True) (VPtr (Some (VStruct menagerie2 ?v1))) = (Inr m1, g1)"
    and c1: "columns m1 = field_columns menagerie2"
    using cache_ok_initial ne by (rule matchingOf_valid)
  have f0: "fst (matchingOf (initial_globals True) (VPtr (Some (VStruct menagerie2 ?v0)))) = Inr m0"
    and f1: "fst (matchingOf (initial_globals True) (VPtr (Some (VStruct menagerie2 ?v1)))) = Inr m1"
    by (simp_all add: m0 m1)
  show ?thesis
    using UpdateQuery_skips_zero_values [OF cache_ok_initial refl wf(1) f0, of "''asia''" ?c]
      UpdateQuery_skips_zero_values [OF cache_ok_initial refl wf(2) f1, of "''asia''" ?c]
    by (simp add: c0 c1 field_columns_menagerie2 writeable_def Placeholder_String_def
          numbered_initial Itoa_small bound_value_def)
qed

text \<open>
  Claim C4. Let \<open>c\<close> be a writeable column whose field holds the pointer \<open>p\<close>, between the
  columns \<open>pre\<close> and \<open>post\<close>. When \<open>p\<close> is nil, \<^verbatim>\<open>UpdateQuery\<close> writes nothing for \<open>c\<close>;
  when \<open>p\<close> points at \<open>v\<close>, it writes the assignment of \<open>c\<close> in its place and binds \<open>v\<close>
  itself, also when \<open>v\<close> is a zero value.
\<close>

theorem UpdateQuery_pointer_field:
  assumes "cache_ok g" and "dt = VPtr (Some (VStruct rt vs))" and "wf_struct rt vs"
    and "fst (matchingOf g dt) = Inr m"
    and "columns m = pre @ c # post" and "\<not> readonly c" and "vs ! index c = VPtr p"
  shows "fst (UpdateQuery g table dt) =
           (let cs = changed pre vs @ (case p of None \<Rightarrow> [] | Some v \<Rightarrow> [c]) @ changed post vs;
                vals = map (\<lambda>c. bound_value (vs ! index c)) (changed pre vs)
                         @ (case p of None \<Rightarrow> [] | Some v \<Rightarrow> [v])
                         @ map (\<lambda>c. bound_value (vs ! index c)) (changed post vs)
            in if cs = [] then Inr ('''', None)
               else Inr (''UPDATE '' @ table @ '' SET '' @ strings_Join (assignments g cs 1) '','',
                         Some vals))"
proof -
  note mo = assms(4) [unfolded assms(2)]
  note uq = UpdateQuery_struct [OF assms(1) mo assms(3), of table]
  have "changed (columns m) vs =
          changed pre vs @ (case p of None \<Rightarrow> [] | Some v \<Rightarrow> [c]) @ changed post vs"
    using assms(6,7) by (simp add: assms(5) changed_def split: option.splits)
  moreover have "map (\<lambda>c. bound_value (vs ! index c)) (case p of None \<Rightarrow> [] | Some v \<Rightarrow> [c]) =
          (case p of None \<Rightarrow> [] | Some v \<Rightarrow> [v])"
    using assms(7) by (simp add: bound_value_def split: option.splits)
  ultimately show ?thesis
    using uq by (simp add: assms(2) Let_def)
qed

theorem UpdateQuery_pointer_field_witness:
  "fst (UpdateQuery (initial_globals True) ''siberia''
          (VPtr (Some (VStruct menagerie2
             [VString '''', VPtr (Some (VString '''')), VInt 5, VSlice None, VBool False,
              VBool False])))) =
     Inr (''UPDATE siberia SET cat=$2,grizzly=$3'', Some [VString '''', VInt 5]) \<and>
   fst (UpdateQuery (initial_globals True) ''siberia''
          (VPtr (Some (VStruct menagerie2
             [VString '''', VPtr None, VInt 5, VSlice None, VBool False, VBool False])))) =
     Inr (''UPDATE siberia SET grizzly=$2'', Some [VInt 5])"
proof -
  let ?v0 = "[VString '''', VPtr (Some (VString '''')), VInt 5, VSlice None, VBool False, VBool False]"
  let ?v1 = "[VString '''', VPtr None, VInt 5, VSlice None, VBool False, VBool False]"
  let ?pre = "[\<lparr>index = 0, name = ''cougar'', readonly = False\<rparr>]"
  let ?c = "\<lparr>index = 1, name = ''cat'', readonly = False\<rparr>"
  let ?post = "[\<lparr>index = 2, name = ''grizzly'', readonly = False\<rparr>,
      \<lparr>index = 3, name = ''wilderbeast'', readonly = False\<rparr>,
      \<lparr>index = 5, name = ''bee'', readonly = True\<rparr>]"
  have ne: "field_columns menagerie2 \<noteq> []" by (simp add: field_columns_menagerie2)
  have wf: "wf_struct menagerie2 ?v0" "wf_struct menagerie2 ?v1"
    by (simp_all add: wf_struct_def menagerie2_def)
  obtain m0 g0 where m0: "matchingOf (initial_globals True) (VPtr (Some (VStruct menagerie2 ?v0))) = (Inr m0, g0)"
    and c0: "columns m0 = field_columns menagerie2"
    using cache_ok_initial ne by (rule matchingOf_valid)
  obtain m1 g1 where m1: "matchingOf (initial_globals True) (VPtr (Some (VStruct menagerie2 ?v1))) = (Inr m1, g1)"
    and c1: "columns m1 = field_columns menagerie2"
    using cache_ok_initial ne by (rule matchingOf_valid)
  have f0: "fst (matchingOf (initial_globals True) (VPtr (Some (VStruct menagerie2 ?v0)))) = Inr m0"
    and f1: "fst (matchingOf (initial_globals True) (VPtr (Some (VStruct menagerie2 ?v1)))) = Inr m1"
    by (simp_all add: m0 m1)
  have d0: "columns m0 = ?pre @ ?c # ?post" and d1: "columns m1 = ?pre @ ?c # ?post"
    by (simp_all add: c0 c1 field_columns_menagerie2)
  have r: "\<not> readonly ?c" by simp
  have p0: "?v0 ! index ?c = VPtr (Some (VString ''''))" and p1: "?v1 ! index ?c = VPtr None"
    by simp_all
  show ?thesis
    using UpdateQuery_pointer_field [OF cache_ok_initial refl wf(1) f0 d0 r p0, of "''siberia''"]
      UpdateQuery_pointer_field [OF cache_ok_initial refl wf(2) f1 d1 r p1, of "''siberia''"]
    by (simp add: changed_def Placeholder_String_def numbered_initial Itoa_small bound_value_def)
qed

lemma find_first: "\<forall>y\<in>set pre. \<not> P y \<Longrightarrow> P x \<Longrightarrow> find P (pre @ x # post) = Some x"
  by (induction pre) auto

text \<open>
  Claim C7. \<^verbatim>\<open>UpdateFieldsQuery\<close> on a pointer to a well-formed struct that has a matching
  panics exactly when it is given no field name or a name that the column map does not have.
  With no name the message is \<open>UpdateFieldsQuery requires at least one field\<close>; otherwise it
  names the struct type and the first name that is not in the map. The map has the names of
  all usable fields, read-only ones included, and for such names the builder returns its
  query and values.
\<close>

theorem UpdateFieldsQuery_panics:
  assumes "cache_ok g" and "dt = VPtr (Some (VStruct rt vs))" and "wf_struct rt vs"
    and "fst (matchingOf g dt) = Inr m"
  shows "((\<exists>e. fst (UpdateFieldsQuery g table dt flds) = Inl e) \<longleftrightarrow>
            flds = [] \<or> (\<exists>f\<in>set flds. columnMap m f = None)) \<and>
         (flds = [] \<longrightarrow>
            fst (UpdateFieldsQuery g table dt flds) =
              Inl (Panic ''UpdateFieldsQuery requires at least one field'')) \<and>
         (flds = pre @ f # post \<and> columnMap m f = None \<and> (\<forall>f'\<in>set pre. columnMap m f' \<noteq> None) \<longrightarrow>
            fst (UpdateFieldsQuery g table dt flds) =
              Inl (Panic (''struct '' @ TypeName rt @ '' has no usable field '' @ f))) \<and>
         (flds \<noteq> [] \<and> (\<forall>f\<in>set flds. columnMap m f \<noteq> None) \<longrightarrow>
            fst (UpdateFieldsQuery g table dt flds) =
              Inr (''UPDATE '' @ table @ '' SET ''
                     @ strings_Join (assignments g (map (\<lambda>f. the (columnMap m f)) flds) 1) '','',
                   map (\<lambda>f. vs ! index (the (columnMap m f))) flds)) \<and>
         dom (columnMap m) = Name ` {fd \<in> set (Fields rt). usable_field fd}"
proof -
  note mo = assms(4) [unfolded assms(2)]
  note uf = UpdateFieldsQuery_valid [OF assms(1) mo assms(3)]
  have none: "find (\<lambda>f. columnMap m f = None) flds = None \<longleftrightarrow> (\<forall>f\<in>set flds. columnMap m f \<noteq> None)"
    by (auto simp: find_None_iff)
  have first: "find (\<lambda>f. columnMap m f = None) flds = Some f"
    if "flds = pre @ f # post \<and> columnMap m f = None \<and> (\<forall>f'\<in>set pre. columnMap m f' \<noteq> None)"
    using that by (simp add: find_first)
  have iff: "(\<exists>e. fst (UpdateFieldsQuery g table dt flds) = Inl e) \<longleftrightarrow>
            flds = [] \<or> (\<exists>f\<in>set flds. columnMap m f = None)"
    using none by (auto simp: assms(2) uf split: option.splits)
  have empty: "flds = [] \<longrightarrow>
            fst (UpdateFieldsQuery g table dt flds) =
              Inl (Panic ''UpdateFieldsQuery requires at least one field'')"
    by (simp add: assms(2) uf)
  have bad: "flds = pre @ f # post \<and> columnMap m f = None \<and> (\<forall>f'\<in>set pre. columnMap m f' \<noteq> None) \<longrightarrow>
            fst (UpdateFieldsQuery g table dt flds) =
              Inl (Panic (''struct '' @ TypeName rt @ '' has no usable field '' @ f))"
  proof
    assume h: "flds = pre @ f # post \<and> columnMap m f = None \<and> (\<forall>f'\<in>set pre. columnMap m f' \<noteq> None)"
    then have "flds \<noteq> []" by auto
    with first [OF h] show "fst (UpdateFieldsQuery g table dt flds) =
              Inl (Panic (''struct '' @ TypeName rt @ '' has no usable field '' @ f))"
      by (simp add: assms(2) uf)
  qed
  have good: "flds \<noteq> [] \<and> (\<forall>f\<in>set flds. columnMap m f \<noteq> None) \<longrightarrow>
            fst (UpdateFieldsQuery g table dt flds) =
              Inr (''UPDATE '' @ table @ '' SET ''
                     @ strings_Join (assignments g (map (\<lambda>f. the (columnMap m f)) flds) 1) '','',
                   map (\<lambda>f. vs ! index (the (columnMap m f))) flds)"
  proof
    assume h: "flds \<noteq> [] \<and> (\<forall>f\<in>set flds. columnMap m f \<noteq> None)"
    then have "find (\<lambda>f. columnMap m f = None) flds = None" using none by blast
    with h show "fst (UpdateFieldsQuery g table dt flds) =
              Inr (''UPDATE '' @ table @ '' SET ''
                     @ strings_Join (assignments g (map (\<lambda>f. the (columnMap m f)) flds) 1) '','',
                   map (\<lambda>f. vs ! index (the (columnMap m f))) flds)"
      by (simp add: assms(2) uf)
  qed
  have dom: "dom (columnMap m) = Name ` {fd \<in> set (Fields rt). usable_field fd}"
    using matchingOf_struct(4) [OF assms(1) mo] by (rule matchingOf_generate_dom)
  from iff empty bad good dom show ?thesis by (intro conjI)
qed

theorem UpdateFieldsQuery_panics_witness:
  "fst (UpdateFieldsQuery (initial_globals False) ''forest''
          (VPtr (Some (VStruct menagerie1 [VInt 123, VString ''foo'', VString '''']))) []) =
     Inl (Panic ''UpdateFieldsQuery requires at least one field'') \<and>
   fst (UpdateFieldsQuery (initial_globals False) ''forest''
          (VPtr (Some (VStruct menagerie1 [VInt 123, VString ''foo'', VString ''''])))
          [''Chimpanzee'', ''Warthog'', ''Flamingo'']) =
     Inl (Panic ''struct menagerie1 has no usable field Warthog'') \<and>
   fst (UpdateFieldsQuery (initial_globals False) ''forest''
          (VPtr (Some (VStruct menagerie1 [VInt 123, VString ''foo'', VString ''''])))
          [''Chimpanzee'', ''Flamingo'']) =
     Inr (''UPDATE forest SET human=?,flamingo=?'', [VInt 123, VString ''foo''])"
proof -
  let ?vs = "[VInt 123, VString ''foo'', VString '''']"
  let ?dt = "VPtr (Some (VStruct menagerie1 ?vs))"
  let ?m = "\<lparr>reflectType = menagerie1,
      columns = [\<lparr>index = 0, name = ''human'', readonly = False\<rparr>,
                 \<lparr>index = 1, name = ''flamingo'', readonly = True\<rparr>],
      columnMap = [''Chimpanzee'' \<mapsto> \<lparr>index = 0, name = ''human'', readonly = False\<rparr>,
                   ''Flamingo'' \<mapsto> \<lparr>index = 1, name = ''flamingo'', readonly = True\<rparr>]\<rparr>"
  have sc: "snakeCase ''Flamingo'' = ''flamingo''" by code_simp
  have gen: "matchingOf_generate menagerie1 = Inr ?m"
    by (simp add: matchingOf_generate_def menagerie1_def Let_def sc)
  have f: "fst (matchingOf (initial_globals False) ?dt) = Inr ?m"
    by (simp add: fst_matchingOf [OF cache_ok_initial] gen)
  have wf: "wf_struct menagerie1 ?vs" by (simp add: wf_struct_def menagerie1_def)
  have tn: "TypeName menagerie1 = ''menagerie1''" by (simp add: menagerie1_def)
  show ?thesis
    using UpdateFieldsQuery_panics [OF cache_ok_initial refl wf f, of "''forest''" "[]" "[]" "''x''" "[]"]
      UpdateFieldsQuery_panics [OF cache_ok_initial refl wf f, of "''forest''"
        "[''Chimpanzee'', ''Warthog'', ''Flamingo'']" "[''Chimpanzee'']" "''Warthog''" "[''Flamingo'']"]
      UpdateFieldsQuery_panics [OF cache_ok_initial refl wf f, of "''forest''"
        "[''Chimpanzee'', ''Flamingo'']" "[]" "''x''" "[]"]
    by (simp add: tn Placeholder_String_def numbered_initial)
qed

section \<open>The derived column name\<close>





























end
